theory Spec2Isabelle
  imports Complex_Main "HOL-Library.AList"
begin

section \<open>JavaScript numbers\<close>

text \<open>
  The module \<^verbatim>\<open>client/src/utils/script.js\<close> computes with JavaScript numbers, which are
  IEEE 754 doubles. A finite double is modelled by the real it denotes, and the three
  special values are kept: a division by zero gives an infinity or NaN, an operation can
  overflow, and NaN goes through \<^verbatim>\<open>Math.min\<close>, \<^verbatim>\<open>Math.max\<close> and every comparison in
  its own way. Every arithmetic operation on finite operands gives the double nearest
  to the exact result, the one with an even significand of two equally near, and an
  infinity beyond the range: the function \<open>dbl\<close>. The reals held in the values of the
  program (a coordinate, an area, a length) are doubles.

  The sign of a zero is not modelled. It does not show in this module: the denominator
  \<^verbatim>\<open>b - a + 1e-9\<close> of \<^verbatim>\<open>normClip\<close> is never \<open>-0\<close>, \<^verbatim>\<open>-0 === 0\<close> holds, and \<open>-0\<close>
  prints as \<^verbatim>\<open>0\<close> in a template literal.
\<close>

datatype jsnum = Fin real | PosInf | NegInf | NaN

fun jneg :: "jsnum \<Rightarrow> jsnum" where
  "jneg (Fin x) = Fin (- x)"
| "jneg PosInf = NegInf"
| "jneg NegInf = PosInf"
| "jneg NaN = NaN"

text \<open>
  A double is \<open>m * 2^e\<close> with an integer \<open>m\<close> of at most 53 bits and an exponent \<open>e\<close>
  from \<open>-1074\<close> to \<open>971\<close>.
\<close>

definition pow2 :: "int \<Rightarrow> real" where
  "pow2 e = 2 powr (of_int e)"

definition representable :: "real \<Rightarrow> bool" where
  "representable x =
     (\<exists>m e. x = of_int m * pow2 e \<and> \<bar>m\<bar> < 2 ^ 53 \<and> - 1074 \<le> e \<and> e \<le> 971)"

text \<open>Rounding to a nearest integer, to the even one of two equally near.\<close>

definition rne :: "real \<Rightarrow> int" where
  "rne y =
     (let f = \<lfloor>y\<rfloor>; d = y - of_int f in
      if d < 1 / 2 then f else if 1 / 2 < d then f + 1 else if even f then f else f + 1)"

text \<open>
  The exponent of the last bit of the significand of a positive \<open>x\<close>: 52 below the
  exponent of \<open>x\<close>, and \<open>-1074\<close> for the subnormal numbers.
\<close>

definition expo :: "real \<Rightarrow> int" where
  "expo x = max (\<lfloor>log 2 x\<rfloor> - 52) (- 1074)"

definition round_pos :: "real \<Rightarrow> jsnum" where
  "round_pos x =
     (let e = expo x; r = of_int (rne (x / pow2 e)) * pow2 e in
      if pow2 1024 \<le> r then PosInf else Fin r)"

text \<open>The number that \<open>round_pos\<close> tests for overflow.\<close>

definition pre :: "real \<Rightarrow> real" where
  "pre x = of_int (rne (x / pow2 (expo x))) * pow2 (expo x)"

definition dbl :: "real \<Rightarrow> jsnum" where
  "dbl x = (if x = 0 then Fin 0 else if 0 < x then round_pos x else jneg (round_pos (- x)))"

text \<open>A decimal literal of the source denotes the double nearest to it.\<close>

definition lit :: "real \<Rightarrow> jsnum" where
  "lit x = dbl x"

fun jadd :: "jsnum \<Rightarrow> jsnum \<Rightarrow> jsnum" where
  "jadd (Fin x) (Fin y) = dbl (x + y)"
| "jadd NaN _ = NaN"
| "jadd _ NaN = NaN"
| "jadd PosInf NegInf = NaN"
| "jadd NegInf PosInf = NaN"
| "jadd PosInf _ = PosInf"
| "jadd _ PosInf = PosInf"
| "jadd NegInf _ = NegInf"
| "jadd _ NegInf = NegInf"

definition jsub :: "jsnum \<Rightarrow> jsnum \<Rightarrow> jsnum" where
  "jsub a b = jadd a (jneg b)"

text \<open>The sign of a number that is not NaN: \<open>-1\<close>, \<open>0\<close> or \<open>1\<close>.\<close>

fun jsgn :: "jsnum \<Rightarrow> int" where
  "jsgn (Fin x) = (if x < 0 then - 1 else if x = 0 then 0 else 1)"
| "jsgn PosInf = 1"
| "jsgn NegInf = - 1"
| "jsgn NaN = 0"

definition signed_inf :: "int \<Rightarrow> jsnum" where
  "signed_inf s = (if s = 0 then NaN else if 0 < s then PosInf else NegInf)"

fun jmul :: "jsnum \<Rightarrow> jsnum \<Rightarrow> jsnum" where
  "jmul (Fin x) (Fin y) = dbl (x * y)"
| "jmul NaN _ = NaN"
| "jmul _ NaN = NaN"
| "jmul a b = signed_inf (jsgn a * jsgn b)"

fun jdiv :: "jsnum \<Rightarrow> jsnum \<Rightarrow> jsnum" where
  "jdiv (Fin x) (Fin y) =
     (if y \<noteq> 0 then dbl (x / y)
      else if x = 0 then NaN else if 0 < x then PosInf else NegInf)"
| "jdiv NaN _ = NaN"
| "jdiv _ NaN = NaN"
| "jdiv (Fin x) _ = Fin 0"
| "jdiv a (Fin y) = signed_inf (jsgn a * (if y < 0 then - 1 else 1))"
| "jdiv _ _ = NaN"

text \<open>
  The comparison \<^verbatim>\<open><=\<close>, false with NaN; \<^verbatim>\<open>Math.min\<close> and \<^verbatim>\<open>Math.max\<close> of two
  numbers, NaN if either is NaN.
\<close>

fun jle :: "jsnum \<Rightarrow> jsnum \<Rightarrow> bool" where
  "jle NaN _ = False"
| "jle _ NaN = False"
| "jle (Fin x) (Fin y) = (x \<le> y)"
| "jle NegInf _ = True"
| "jle _ PosInf = True"
| "jle _ _ = False"

fun Math_min :: "jsnum \<Rightarrow> jsnum \<Rightarrow> jsnum" where
  "Math_min NaN _ = NaN"
| "Math_min _ NaN = NaN"
| "Math_min a b = (if jle a b then a else b)"

fun Math_max :: "jsnum \<Rightarrow> jsnum \<Rightarrow> jsnum" where
  "Math_max NaN _ = NaN"
| "Math_max _ NaN = NaN"
| "Math_max a b = (if jle a b then b else a)"

text \<open>
  \<^verbatim>\<open>Math.round\<close>: the integer nearest to the number, the larger one of two equally
  near; an infinity and NaN are returned as they are.
\<close>

fun Math_round :: "jsnum \<Rightarrow> jsnum" where
  "Math_round (Fin x) = Fin (of_int \<lfloor>x + 1 / 2\<rfloor>)"
| "Math_round v = v"

text \<open>
  \<^verbatim>\<open>Number(x.toFixed(d))\<close>. \<^verbatim>\<open>toFixed\<close> prints the decimal with \<open>d\<close> digits nearest to
  the double \<open>x\<close>, the larger one of two equally near; a negative \<open>x\<close> is printed as
  \<open>-x\<close> with a minus sign; from \<open>10^21\<close> on, and for the special values, the number is
  printed in full. \<^verbatim>\<open>Number\<close> reads the text back as the nearest double.
\<close>

fun toFixed :: "nat \<Rightarrow> jsnum \<Rightarrow> jsnum" where
  "toFixed d (Fin x) =
     (if 10 ^ 21 \<le> \<bar>x\<bar> then Fin x
      else if x < 0 then jneg (dbl (of_int \<lfloor>- x * 10 ^ d + 1 / 2\<rfloor> / 10 ^ d))
      else dbl (of_int \<lfloor>x * 10 ^ d + 1 / 2\<rfloor> / 10 ^ d))"
| "toFixed d v = v"

text \<open>A number is finite when it is none of the three special values.\<close>

fun is_fin :: "jsnum \<Rightarrow> bool" where
  "is_fin (Fin x) = True"
| "is_fin _ = False"

section \<open>ScoreComposer: normClip\<close>

text \<open>
  \<^verbatim>\<open>function normClip(x, a, b) {
    return Math.max(0.0, Math.min(1.0, (x - a) / (b - a + 1e-9)));
  }\<close>
\<close>

definition normClip :: "jsnum \<Rightarrow> jsnum \<Rightarrow> jsnum \<Rightarrow> jsnum" where
  "normClip x a b =
     Math_max (Fin 0)
       (Math_min (Fin 1) (jdiv (jsub x a) (jadd (jsub b a) (lit (1 / 10 ^ 9)))))"

section \<open>Data model\<close>

text \<open>
  A JavaScript value, as far as the caller of \<^verbatim>\<open>analyzeBBox\<close> can pass one for the
  bounding box: the function receives whatever the caller gives it.
\<close>

datatype jsval =
    JUndefined
  | JNull
  | JBool bool
  | JNumber jsnum
  | JString string
  | JArray "jsval list"
  | JObject

text \<open>
  An element of the Overpass answer
  \<^verbatim>\<open>{ elements: [ {type, id, tags?, lat?, lon?, geometry?: [{lat,lon}, ...]} ... ] }\<close>.
  The answer is JSON, so its numbers are finite. \<open>el_geometry\<close> is \<open>None\<close> when
  \<^verbatim>\<open>Array.isArray(el.geometry)\<close> is false, \<open>el_tags\<close> is \<open>None\<close> when the element has no
  tags, \<open>elements\<close> is \<open>None\<close> when the answer has no such field.
\<close>

record geom_node =
  g_lat :: real
  g_lon :: real

record element =
  el_type :: string
  el_id :: int
  el_tags :: "(string \<rightharpoonup> string) option"
  el_lat :: real
  el_lon :: real
  el_geometry :: "geom_node list option"

record osm_json =
  elements :: "element list option"

text \<open>
  GeoJSON. A position is \<^verbatim>\<open>[lon, lat]\<close>. An entry of a polygon ring is \<open>None\<close> where
  the array holds \<^verbatim>\<open>undefined\<close>: \<^verbatim>\<open>osmToGeoJSON\<close> closes a ring with \<^verbatim>\<open>coords[0]\<close>,
  which is \<^verbatim>\<open>undefined\<close> for a way without nodes.
\<close>

type_synonym position = "real \<times> real"

datatype geometry =
    Point position
  | LineString "position list"
  | MultiLineString "position list list"
  | Polygon "position option list list"
  | MultiPolygon "position option list list list"

text \<open>A value of a feature's properties: the element id (a number) or a tag (a string).\<close>

datatype pval = PNum int | PStr string

record feature =
  f_geometry :: "geometry option"
  f_properties :: "string \<rightharpoonup> pval"

text \<open>
  A feature collection is the list of its features (\<^verbatim>\<open>type\<close> is the constant
  \<^verbatim>\<open>"FeatureCollection"\<close>); an argument of type \<open>feature_collection option\<close> is \<open>None\<close>
  for \<^verbatim>\<open>null\<close> or \<^verbatim>\<open>undefined\<close>.
\<close>

type_synonym feature_collection = "feature list"

datatype error =
    ValidationError \<comment> \<open>\<^verbatim>\<open>Error("bbox must be an array [minLon, minLat, maxLon, maxLat]")\<close>\<close>
  | FetchError string \<comment> \<open>the rejection of \<^verbatim>\<open>axios.post\<close>, thrown again by \<^verbatim>\<open>overpass\<close>\<close>
  | TypeError \<comment> \<open>a property read on \<^verbatim>\<open>undefined\<close>, a call of a non-function\<close>
  | TurfError string \<comment> \<open>thrown inside \<^verbatim>\<open>@turf/turf\<close>\<close>

definition ebind :: "error + 'a \<Rightarrow> ('a \<Rightarrow> error + 'b) \<Rightarrow> error + 'b" where
  "ebind m f = (case m of Inl e \<Rightarrow> Inl e | Inr x \<Rightarrow> f x)"

text \<open>
  What the module takes from outside: the remote interpreter, the scheduler, the
  libraries \<^verbatim>\<open>@turf/turf\<close> and the language's own number printing.
  \<^item> \<open>post q i\<close> is the outcome of the \<open>i\<close>-th \<^verbatim>\<open>axios.post\<close> of query \<open>q\<close> (from 0):
    \<open>Inl\<close> a rejection, \<open>Inr\<close> the \<^verbatim>\<open>data\<close> of the response;
  \<^item> \<open>settle_order\<close> lists the three concurrent fetches (0, 1, 2) in the order in
    which they settle; a fetch that is not listed settles after the listed ones;
  \<^item> \<open>turf_area b\<close> is \<^verbatim>\<open>area(bboxPolygon(b))\<close>, \<open>turf_length g\<close> is
    \<^verbatim>\<open>length(f, { units: "kilometers" })\<close> for a feature of geometry \<open>g\<close>, and
    \<open>turf_ring_length r\<close> is \<^verbatim>\<open>length(lineString(r), { units: "kilometers" })\<close>, where
    \<open>r\<close> is \<open>None\<close> for \<^verbatim>\<open>undefined\<close>; each may throw;
  \<^item> \<open>toStr v\<close> is the text of \<open>v\<close> in a template literal;
  \<^item> \<open>areaReport\<close> is the text that \<^verbatim>\<open>generateGeminiAnalysis\<close> returns.
\<close>

record env =
  post :: "string \<Rightarrow> nat \<Rightarrow> string + osm_json"
  settle_order :: "nat list"
  turf_area :: "jsval list \<Rightarrow> string + jsnum"
  turf_length :: "geometry \<Rightarrow> string + jsnum"
  turf_ring_length :: "position option list option \<Rightarrow> string + jsnum"
  toStr :: "jsval \<Rightarrow> string"
  areaReport :: string

definition turf :: "string + 'a \<Rightarrow> error + 'a" where
  "turf r = (case r of Inl msg \<Rightarrow> Inl (TurfError msg) | Inr v \<Rightarrow> Inr v)"

section \<open>RemoteFetcher: overpass\<close>

text \<open>
  \<^verbatim>\<open>async function overpass(query, retries = 1, pauseMs = 1500) {
    for (let attempt = 0; attempt <= retries; attempt++) {
      try { const r = await axios.post(url, query, ...); return r.data; }
      catch (err) {
        if (attempt < retries) { await new Promise((res) => setTimeout(res, pauseMs)); }
        else { throw err; }
      }
    }
  }\<close>
  The result is the number of requests sent and the outcome: \<open>Inl\<close> the error thrown,
  \<open>Inr (Some d)\<close> the data returned, \<open>Inr None\<close> for \<^verbatim>\<open>undefined\<close>, which the function
  returns when the loop ends without a request (a negative \<open>retries\<close>). The pause is
  time only and is left out.
\<close>

function overpass_loop ::
  "(nat \<Rightarrow> string + osm_json) \<Rightarrow> int \<Rightarrow> int \<Rightarrow> nat \<times> (error + osm_json option)" where
  "overpass_loop p retries attempt =
     (if attempt \<le> retries then
        (case p (nat attempt) of
           Inr d \<Rightarrow> (nat attempt + 1, Inr (Some d))
         | Inl err \<Rightarrow>
             if attempt < retries then overpass_loop p retries (attempt + 1)
             else (nat attempt + 1, Inl (FetchError err)))
      else (nat attempt, Inr None))"
  by pat_completeness auto
termination
  by (relation "measure (\<lambda>(p, retries, attempt). nat (retries - attempt))") auto

declare overpass_loop.simps [simp del]

definition overpass :: "env \<Rightarrow> string \<Rightarrow> int \<Rightarrow> nat \<times> (error + osm_json option)" where
  "overpass e query retries = overpass_loop (post e query) retries 0"

section \<open>FeatureConverter: osmToGeoJSON\<close>

text \<open>
  \<^verbatim>\<open>const props = { id: el.id, ...(el.tags || {}) };\<close>
  The tags are spread after \<^verbatim>\<open>id\<close>, so a tag wins over the entry written before it.
\<close>

definition tags_or_empty :: "element \<Rightarrow> (string \<rightharpoonup> string)" where
  "tags_or_empty el = (case el_tags el of None \<Rightarrow> Map.empty | Some t \<Rightarrow> t)"

definition make_props :: "element \<Rightarrow> (string \<rightharpoonup> pval)" where
  "make_props el =
     [''id'' \<mapsto> PNum (el_id el)] ++ (\<lambda>k. map_option PStr (tags_or_empty el k))"

text \<open>Truthiness of a property read: a missing property is \<^verbatim>\<open>undefined\<close>.\<close>

fun truthy :: "pval option \<Rightarrow> bool" where
  "truthy None = False"
| "truthy (Some (PNum n)) = (n \<noteq> 0)"
| "truthy (Some (PStr s)) = (s \<noteq> [])"

text \<open>\<^verbatim>\<open>xs[0]\<close>: \<open>None\<close> (\<^verbatim>\<open>undefined\<close>) on an empty array.\<close>

fun first :: "'a list \<Rightarrow> 'a option" where
  "first [] = None"
| "first (x # _) = Some x"

text \<open>
  One turn of the loop over the elements: the feature pushed for \<open>el\<close>, if any.
  \<^verbatim>\<open>if (!geomTypes.includes(el.type)) continue;
  const props = { id: el.id, ...(el.tags || {}) };
  if (el.type === "node") {
    features.push({ type: "Feature",
      geometry: { type: "Point", coordinates: [el.lon, el.lat] }, properties: props });
  } else if (el.type === "way" && Array.isArray(el.geometry)) {
    const coords = el.geometry.map((g) => [g.lon, g.lat]);
    const geom = props.building
      ? { type: "Polygon", coordinates: [[...coords, coords[0]]] }
      : { type: "LineString", coordinates: coords };
    features.push({ type: "Feature", geometry: geom, properties: props });
  } else if (el.type === "relation") { continue; }\<close>
\<close>

definition convert :: "string list \<Rightarrow> element \<Rightarrow> feature option" where
  "convert geomTypes el =
     (if el_type el \<notin> set geomTypes then None
      else
        let props = make_props el in
        if el_type el = ''node'' then
          Some \<lparr>f_geometry = Some (Point (el_lon el, el_lat el)), f_properties = props\<rparr>
        else if el_type el = ''way'' \<and> el_geometry el \<noteq> None then
          let coords = map (\<lambda>g. (g_lon g, g_lat g)) (the (el_geometry el));
              geom = (if truthy (props ''building'')
                      then Polygon [map Some coords @ [first coords]]
                      else LineString coords)
          in Some \<lparr>f_geometry = Some geom, f_properties = props\<rparr>
        else None)"

fun osm_loop :: "string list \<Rightarrow> element list \<Rightarrow> feature list \<Rightarrow> feature list" where
  "osm_loop geomTypes [] features = features"
| "osm_loop geomTypes (el # els) features =
     (case convert geomTypes el of
        None \<Rightarrow> osm_loop geomTypes els features
      | Some f \<Rightarrow> osm_loop geomTypes els (features @ [f]))"

text \<open>
  \<^verbatim>\<open>osmJson.elements || []\<close>: reading \<^verbatim>\<open>elements\<close> of \<^verbatim>\<open>undefined\<close> throws.
\<close>

definition osmToGeoJSON :: "osm_json option \<Rightarrow> string list \<Rightarrow> error + feature_collection" where
  "osmToGeoJSON osmJson geomTypes =
     (case osmJson of
        None \<Rightarrow> Inl TypeError
      | Some j \<Rightarrow>
          Inr (osm_loop geomTypes (case elements j of None \<Rightarrow> [] | Some els \<Rightarrow> els) []))"

section \<open>GeometricMetrics: lengthKm\<close>

text \<open>
  \<^verbatim>\<open>const polygons = f.geometry.type === "Polygon"
      ? [f.geometry.coordinates] : f.geometry.coordinates;
  for (const ring of polygons) {
    const ringLine = lineString(ring[0]);
    total += length(ringLine, { units: "kilometers" });
  }\<close>
\<close>

fun rings_loop :: "env \<Rightarrow> position option list list list \<Rightarrow> jsnum \<Rightarrow> error + jsnum" where
  "rings_loop e [] tot = Inr tot"
| "rings_loop e (ring # rest) tot =
     (case turf (turf_ring_length e (first ring)) of
        Inl err \<Rightarrow> Inl err
      | Inr l \<Rightarrow> rings_loop e rest (jadd tot l))"

fun lengthKm_loop :: "env \<Rightarrow> feature list \<Rightarrow> jsnum \<Rightarrow> error + jsnum" where
  "lengthKm_loop e [] tot = Inr tot"
| "lengthKm_loop e (f # fs) tot =
     (case f_geometry f of
        None \<Rightarrow> lengthKm_loop e fs tot
      | Some (Point c) \<Rightarrow> lengthKm_loop e fs tot
      | Some (LineString c) \<Rightarrow>
          (case turf (turf_length e (LineString c)) of
             Inl err \<Rightarrow> Inl err
           | Inr l \<Rightarrow> lengthKm_loop e fs (jadd tot l))
      | Some (MultiLineString c) \<Rightarrow>
          (case turf (turf_length e (MultiLineString c)) of
             Inl err \<Rightarrow> Inl err
           | Inr l \<Rightarrow> lengthKm_loop e fs (jadd tot l))
      | Some (Polygon c) \<Rightarrow>
          (case rings_loop e [c] tot of
             Inl err \<Rightarrow> Inl err
           | Inr t \<Rightarrow> lengthKm_loop e fs t)
      | Some (MultiPolygon c) \<Rightarrow>
          (case rings_loop e c tot of
             Inl err \<Rightarrow> Inl err
           | Inr t \<Rightarrow> lengthKm_loop e fs t))"

definition lengthKm :: "env \<Rightarrow> feature_collection option \<Rightarrow> error + jsnum" where
  "lengthKm e featureCollection =
     (case featureCollection of
        None \<Rightarrow> Inr (Fin 0)
      | Some fs \<Rightarrow> if length fs = 0 then Inr (Fin 0) else lengthKm_loop e fs (Fin 0))"

section \<open>DensityAnalyzer\<close>

text \<open>
  \<^verbatim>\<open>function pointDensityPerKm2(featureCollection, areaKm2) {
    if (!featureCollection || areaKm2 === 0) return 0.0;
    return (featureCollection.features || []).length / areaKm2;
  }\<close>
\<close>

definition pointDensityPerKm2 :: "feature_collection option \<Rightarrow> jsnum \<Rightarrow> jsnum" where
  "pointDensityPerKm2 featureCollection areaKm2 =
     (case featureCollection of
        None \<Rightarrow> Fin 0
      | Some fs \<Rightarrow> if areaKm2 = Fin 0 then Fin 0 else jdiv (Fin (real (length fs))) areaKm2)"

text \<open>
  \<^verbatim>\<open>const rx = Math.round(lon * 10000); const ry = Math.round(lat * 10000);
  pts.push(`${rx},${ry}`);\<close>
  The product is the product of doubles. The key of a vertex is modelled by the pair of
  numbers that it prints.
\<close>

type_synonym cell = "jsnum \<times> jsnum"

fun line_loop :: "position list \<Rightarrow> cell list \<Rightarrow> cell list" where
  "line_loop [] pts = pts"
| "line_loop ((lon, lat) # rest) pts =
     line_loop rest
       (pts @ [(Math_round (jmul (Fin lon) (Fin 10000)), Math_round (jmul (Fin lat) (Fin 10000)))])"

fun lines_loop :: "position list list \<Rightarrow> cell list \<Rightarrow> cell list" where
  "lines_loop [] pts = pts"
| "lines_loop (line # rest) pts = lines_loop rest (line_loop line pts)"

fun roads_loop :: "feature list \<Rightarrow> cell list \<Rightarrow> cell list" where
  "roads_loop [] pts = pts"
| "roads_loop (f # fs) pts =
     (case f_geometry f of
        Some (LineString c) \<Rightarrow> roads_loop fs (line_loop c pts)
      | Some (MultiLineString c) \<Rightarrow> roads_loop fs (lines_loop c pts)
      | _ \<Rightarrow> roads_loop fs pts)"

text \<open>
  \<^verbatim>\<open>acc[k] = (acc[k] || 0) + 1\<close>: the table keeps its keys in the order in which they
  were first written.
\<close>

definition count_key :: "(cell \<times> nat) list \<Rightarrow> cell \<Rightarrow> (cell \<times> nat) list" where
  "count_key acc k =
     AList.update k ((case map_of acc k of None \<Rightarrow> 0 | Some c \<Rightarrow> c) + 1) acc"

text \<open>
  \<^verbatim>\<open>function intersectionDensityPerKm2(roadsFeatureCollection, areaKm2) {
    if (!roadsFeatureCollection || areaKm2 === 0) return 0.0;
    const pts = []; ...
    if (pts.length === 0) return 0.0;
    const counts = pts.reduce((acc, k) => { acc[k] = (acc[k] || 0) + 1; return acc; }, {});
    const intersections = Object.values(counts).filter((v) => v >= 3).length;
    return intersections / areaKm2;
  }\<close>
\<close>

definition intersectionDensityPerKm2 :: "feature_collection option \<Rightarrow> jsnum \<Rightarrow> jsnum" where
  "intersectionDensityPerKm2 roadsFeatureCollection areaKm2 =
     (case roadsFeatureCollection of
        None \<Rightarrow> Fin 0
      | Some fs \<Rightarrow>
          if areaKm2 = Fin 0 then Fin 0
          else
            let pts = roads_loop fs [] in
            if length pts = 0 then Fin 0
            else
              let counts = foldl count_key [] pts;
                  intersections = length (filter (\<lambda>v. 3 \<le> v) (map snd counts))
              in jdiv (Fin (real intersections)) areaKm2)"

section \<open>AnalysisOrchestrator: analyzeBBox\<close>

text \<open>
  \<^verbatim>\<open>toLowerCase\<close> on a string of one-byte characters: the letters \<open>A\<close> to \<open>Z\<close> are
  mapped to \<open>a\<close> to \<open>z\<close>, every other character is kept.
\<close>

definition lower_char :: "char \<Rightarrow> char" where
  "lower_char c =
     (let n = (of_char c :: nat) in if 65 \<le> n \<and> n \<le> 90 then char_of (n + 32) else c)"

definition toLowerCase :: "string \<Rightarrow> string" where
  "toLowerCase s = map lower_char s"

text \<open>
  \<^verbatim>\<open>(f) => (f.properties.amenity || "").toLowerCase() === "hospital"\<close>:
  a truthy value that is not a string has no \<^verbatim>\<open>toLowerCase\<close>, and the call throws.
\<close>

definition amenity_is :: "string \<Rightarrow> feature \<Rightarrow> error + bool" where
  "amenity_is kind f =
     (let a = f_properties f ''amenity'' in
      if truthy a then
        (case a of
           Some (PStr s) \<Rightarrow> Inr (toLowerCase s = kind)
         | _ \<Rightarrow> Inl TypeError)
      else Inr (toLowerCase [] = kind))"

fun filter_amenity :: "string \<Rightarrow> feature list \<Rightarrow> error + feature list" where
  "filter_amenity kind [] = Inr []"
| "filter_amenity kind (f # fs) =
     (case amenity_is kind f of
        Inl err \<Rightarrow> Inl err
      | Inr keep \<Rightarrow>
          (case filter_amenity kind fs of
             Inl err \<Rightarrow> Inl err
           | Inr rest \<Rightarrow> Inr (if keep then f # rest else rest)))"

record options =
  apiKey :: string
  useGemini :: bool
  overpassRetries :: int
  model :: string

definition default_options :: options where
  "default_options =
     \<lparr>apiKey = [], useGemini = True, overpassRetries = 1, model = ''gemini-2.0-flash''\<rparr>"

record metrics =
  area_km2 :: jsnum
  roads_km :: jsnum
  roads_km_per_km2 :: jsnum
  buildings_count :: nat
  buildings_per_km2 :: jsnum
  intersections_per_km2 :: jsnum
  hospitals_per_km2 :: jsnum
  schools_per_km2 :: jsnum
  SocioEconScore :: jsnum

record analysis_result =
  result_metrics :: metrics
  analysis :: string

text \<open>
  \<^verbatim>\<open>generateGeminiAnalysis\<close> returns its fixed text in its first statement; the client
  \<^verbatim>\<open>ai\<close>, the metrics and the model name are not read.
\<close>

definition generateGeminiAnalysis :: "env \<Rightarrow> metrics \<Rightarrow> string \<Rightarrow> string" where
  "generateGeminiAnalysis e m mdl = areaReport e"

text \<open>
  \<^verbatim>\<open>const Q_BASE = `(${minlat},${minlon},${maxlat},${maxlon})`;\<close> and the three queries.
\<close>

definition Q_BASE :: "env \<Rightarrow> jsval list \<Rightarrow> string" where
  "Q_BASE e b =
     ''('' @ toStr e (b ! 1) @ '','' @ toStr e (b ! 0) @ '','' @ toStr e (b ! 3) @ '','' @
     toStr e (b ! 2) @ '')''"

definition Q_ROADS :: "string \<Rightarrow> string" where
  "Q_ROADS q = ''[out:json][timeout:60];way'' @ q @ ''[highway];out geom;''"

definition Q_BUILD :: "string \<Rightarrow> string" where
  "Q_BUILD q = ''[out:json][timeout:60];way'' @ q @ ''[building];out geom;''"

definition Q_AMEN :: "string \<Rightarrow> string" where
  "Q_AMEN q =
     ''[out:json][timeout:60];(node'' @ q @ ''[amenity=hospital];node'' @ q @
     ''[amenity=clinic];node'' @ q @ ''[amenity=school];node'' @ q @
     ''[amenity=university];node'' @ q @ ''[public_transport=station];node'' @ q @
     ''[highway=bus_stop];);out body;''"

text \<open>
  \<^verbatim>\<open>Promise.all\<close>: rejected with the error of the first promise that is rejected, in
  the order in which the promises settle; fulfilled with all the values otherwise.
\<close>

definition Promise_all :: "nat list \<Rightarrow> (error + 'a) list \<Rightarrow> error + 'a list" where
  "Promise_all order rs =
     (case List.find (\<lambda>i. i < length rs \<and> isl (rs ! i)) (order @ [0..<length rs]) of
        Some i \<Rightarrow> Inl (projl (rs ! i))
      | None \<Rightarrow> Inr (map projr rs))"

text \<open>
  The score, lines 299 to 307 of the module:
  \<^verbatim>\<open>const infra = 0.5 * normClip(road_km_per_km2, 0, 10) + 0.5 * normClip(intxn_per_km2, 0, 200);
  const access = 0.5 * normClip(hosp_per_km2, 0, 5) + 0.5 * normClip(school_per_km2, 0, 8);
  const activity = 0.0;
  const green = 0.0;
  const socio_score = 100.0 * (0.35 * infra + 0.35 * access + 0.2 * activity + 0.1 * green);\<close>
\<close>

definition infra_score :: "jsnum \<Rightarrow> jsnum \<Rightarrow> jsnum" where
  "infra_score road_km_per_km2 intxn_per_km2 =
     jadd (jmul (Fin (1 / 2)) (normClip road_km_per_km2 (Fin 0) (Fin 10)))
          (jmul (Fin (1 / 2)) (normClip intxn_per_km2 (Fin 0) (Fin 200)))"

definition access_score :: "jsnum \<Rightarrow> jsnum \<Rightarrow> jsnum" where
  "access_score hosp_per_km2 school_per_km2 =
     jadd (jmul (Fin (1 / 2)) (normClip hosp_per_km2 (Fin 0) (Fin 5)))
          (jmul (Fin (1 / 2)) (normClip school_per_km2 (Fin 0) (Fin 8)))"

definition socio_score :: "jsnum \<Rightarrow> jsnum \<Rightarrow> jsnum" where
  "socio_score infra access =
     (let activity = Fin 0; green = Fin 0 in
      jmul (Fin 100)
        (jadd (jadd (jadd (jmul (lit (35 / 100)) infra) (jmul (lit (35 / 100)) access))
                    (jmul (lit (2 / 10)) activity))
              (jmul (lit (1 / 10)) green)))"

text \<open>
  The body of \<^verbatim>\<open>analyzeBBox\<close> after the three answers have arrived (lines 270 to 319):
  conversion, area, lengths, counts, densities, score and rounding.
\<close>

definition compute_metrics ::
  "env \<Rightarrow> jsval list \<Rightarrow> osm_json option \<Rightarrow> osm_json option \<Rightarrow> osm_json option \<Rightarrow>
   error + metrics" where
  "compute_metrics e b roadsOs buildOs amenOs =
     ebind (osmToGeoJSON roadsOs [''way'']) (\<lambda>roadsGeo.
     ebind (osmToGeoJSON buildOs [''way'']) (\<lambda>buildGeo.
     ebind (osmToGeoJSON amenOs [''node'']) (\<lambda>amenGeo.
     ebind (turf (turf_area e b)) (\<lambda>a.
     let areaKm2 = jdiv a (Fin 1000000) in
     ebind (lengthKm e (Some roadsGeo)) (\<lambda>road_km.
     let road_km_per_km2 = (if areaKm2 = Fin 0 then Fin 0 else jdiv road_km areaKm2);
         bldg_count = length buildGeo;
         bldg_per_km2 =
           (if areaKm2 = Fin 0 then Fin 0 else jdiv (Fin (real bldg_count)) areaKm2);
         intxn_per_km2 = intersectionDensityPerKm2 (Some roadsGeo) areaKm2
     in
     ebind (filter_amenity ''hospital'' amenGeo) (\<lambda>hospitals.
     ebind (filter_amenity ''school'' amenGeo) (\<lambda>schools.
     let hosp_per_km2 = pointDensityPerKm2 (Some hospitals) areaKm2;
         school_per_km2 = pointDensityPerKm2 (Some schools) areaKm2;
         infra = infra_score road_km_per_km2 intxn_per_km2;
         access = access_score hosp_per_km2 school_per_km2
     in
     Inr \<lparr>area_km2 = toFixed 3 areaKm2,
          roads_km = toFixed 3 road_km,
          roads_km_per_km2 = toFixed 3 road_km_per_km2,
          buildings_count = bldg_count,
          buildings_per_km2 = toFixed 3 bldg_per_km2,
          intersections_per_km2 = toFixed 3 intxn_per_km2,
          hospitals_per_km2 = toFixed 4 hosp_per_km2,
          schools_per_km2 = toFixed 4 school_per_km2,
          SocioEconScore = toFixed 1 (socio_score infra access)\<rparr>)))))))"

text \<open>
  \<^verbatim>\<open>export async function analyzeBBox(bbox, options = {})\<close>. The result is the list of
  the queries posted, each with the number of requests sent for it, and the outcome:
  \<open>Inl\<close> the error thrown, \<open>Inr\<close> the object returned. The three fetches are started
  together and none is cancelled when another one fails. The client \<^verbatim>\<open>ai\<close> is built
  from \<^verbatim>\<open>apiKey\<close> and \<^verbatim>\<open>useGemini\<close> and never read.
\<close>

definition analyzeBBox ::
  "env \<Rightarrow> jsval \<Rightarrow> options \<Rightarrow> (string \<times> nat) list \<times> (error + analysis_result)" where
  "analyzeBBox e bbox opts =
     (case bbox of
        JArray b \<Rightarrow>
          if length b \<noteq> 4 then ([], Inl ValidationError)
          else
            let q = Q_BASE e b;
                roads = overpass e (Q_ROADS q) (overpassRetries opts);
                build = overpass e (Q_BUILD q) (overpassRetries opts);
                amen = overpass e (Q_AMEN q) (overpassRetries opts);
                requests = [(Q_ROADS q, fst roads), (Q_BUILD q, fst build), (Q_AMEN q, fst amen)]
            in
            (requests,
             case Promise_all (settle_order e) [snd roads, snd build, snd amen] of
               Inl err \<Rightarrow> Inl err
             | Inr os \<Rightarrow>
                 ebind (compute_metrics e b (os ! 0) (os ! 1) (os ! 2)) (\<lambda>m.
                 Inr \<lparr>result_metrics = m,
                      analysis = generateGeminiAnalysis e m (model opts)\<rparr>))
      | _ \<Rightarrow> ([], Inl ValidationError))"

section \<open>Reference definitions for the density heuristic\<close>

text \<open>
  The description of the heuristic, to be compared with the loops of
  \<^verbatim>\<open>intersectionDensityPerKm2\<close>: the vertices of the lines of a collection, the cell of
  a vertex, and the number of cells that at least three vertices fall into.
\<close>

fun spec_vertices_of :: "feature \<Rightarrow> position list" where
  "spec_vertices_of f =
     (case f_geometry f of
        Some (LineString c) \<Rightarrow> c
      | Some (MultiLineString c) \<Rightarrow> concat c
      | _ \<Rightarrow> [])"

definition spec_vertices :: "feature list \<Rightarrow> position list" where
  "spec_vertices fs = concat (map spec_vertices_of fs)"

definition spec_cell :: "position \<Rightarrow> cell" where
  "spec_cell v =
     (Math_round (jmul (Fin (fst v)) (Fin 10000)), Math_round (jmul (Fin (snd v)) (Fin 10000)))"

definition spec_intersections :: "feature list \<Rightarrow> nat" where
  "spec_intersections fs =
     card {c \<in> set (map spec_cell (spec_vertices fs)).
             3 \<le> count_list (map spec_cell (spec_vertices fs)) c}"

section \<open>Sample data\<close>

text \<open>
  A small world on which the functions are run: three roads that meet in one vertex,
  one building, and three amenity nodes. The bounding box is the one of the module's
  usage note moved onto doubles with few bits, \<^verbatim>\<open>[77.125, 28.5, 77.25, 28.75]\<close>, as
  are all coordinates of the sample; the sample libraries give the box an area of two
  square kilometres and every line a length of one kilometre.
\<close>

definition sample_bbox :: "jsval list" where
  "sample_bbox =
     [JNumber (Fin (617 / 8)), JNumber (Fin (57 / 2)),
      JNumber (Fin (309 / 4)), JNumber (Fin (115 / 4))]"

definition way :: "int \<Rightarrow> (string \<rightharpoonup> string) \<Rightarrow> (real \<times> real) list \<Rightarrow> element" where
  "way i t g =
     \<lparr>el_type = ''way'', el_id = i, el_tags = Some t, el_lat = 0, el_lon = 0,
      el_geometry = Some (map (\<lambda>(la, lo). \<lparr>g_lat = la, g_lon = lo\<rparr>) g)\<rparr>"

definition node :: "int \<Rightarrow> (string \<rightharpoonup> string) \<Rightarrow> real \<Rightarrow> real \<Rightarrow> element" where
  "node i t la lo =
     \<lparr>el_type = ''node'', el_id = i, el_tags = Some t, el_lat = la, el_lon = lo,
      el_geometry = None\<rparr>"

definition sample_roads :: osm_json where
  "sample_roads =
     \<lparr>elements = Some
        [way 1 [''highway'' \<mapsto> ''residential''] [(0, 0), (0, 1 / 1024)],
         way 2 [''highway'' \<mapsto> ''residential''] [(0, 1 / 1024), (0, 1 / 512)],
         way 3 [''highway'' \<mapsto> ''service''] [(0, 1 / 1024), (1 / 1024, 1 / 1024)]]\<rparr>"

definition sample_buildings :: osm_json where
  "sample_buildings =
     \<lparr>elements = Some
        [way 4 [''building'' \<mapsto> ''yes'']
           [(0, 0), (0, 1 / 1024), (1 / 1024, 1 / 1024)]]\<rparr>"

definition sample_amenities :: osm_json where
  "sample_amenities =
     \<lparr>elements = Some
        [node 5 [''amenity'' \<mapsto> ''Hospital''] 0 0,
         node 6 [''amenity'' \<mapsto> ''clinic''] 0 (1 / 1024),
         node 7 [''highway'' \<mapsto> ''bus_stop''] (1 / 1024) 0]\<rparr>"

definition sample_query :: string where
  "sample_query = ''(28.5,77.125,28.75,77.25)''"

definition sample_answer :: "string \<Rightarrow> osm_json" where
  "sample_answer q =
     (if q = Q_ROADS sample_query then sample_roads
      else if q = Q_BUILD sample_query then sample_buildings
      else sample_amenities)"

definition sample_toStr :: "jsval \<Rightarrow> string" where
  "sample_toStr v =
     (case v of
        JString s \<Rightarrow> s
      | _ \<Rightarrow>
          if v = JNumber (Fin (617 / 8)) then ''77.125''
          else if v = JNumber (Fin (57 / 2)) then ''28.5''
          else if v = JNumber (Fin (309 / 4)) then ''77.25''
          else if v = JNumber (Fin (115 / 4)) then ''28.75''
          else ''undefined'')"

definition sample_env :: env where
  "sample_env =
     \<lparr>post = (\<lambda>q i. Inr (sample_answer q)),
      settle_order = [0, 1, 2],
      turf_area = (\<lambda>b. Inr (Fin 2000000)),
      turf_length = (\<lambda>g. Inr (Fin 1)),
      turf_ring_length = (\<lambda>r. Inr (Fin 1)),
      toStr = sample_toStr,
      areaReport = ''report''\<rparr>"

text \<open>
  Three more worlds: one in which every request fails, one in which the first request
  of each query fails and the second succeeds, and one in which only the amenity query
  fails.
\<close>

definition offline_env :: env where
  "offline_env = sample_env\<lparr>post := (\<lambda>q i. Inl ''Network Error'')\<rparr>"

definition flaky_env :: env where
  "flaky_env =
     sample_env\<lparr>post := (\<lambda>q i. if i = 0 then Inl ''timeout'' else Inr (sample_answer q))\<rparr>"

definition amenities_down_env :: env where
  "amenities_down_env =
     sample_env\<lparr>post := (\<lambda>q i. if q = Q_AMEN sample_query then Inl ''Network Error''
                                else Inr (sample_answer q))\<rparr>"

text \<open>
  The world of the sample with an area library that answers NaN, as the arithmetic of
  \<^verbatim>\<open>area\<close> does on a bounding box whose entries are not numbers.
\<close>

definition nan_area_env :: env where
  "nan_area_env = sample_env\<lparr>turf_area := (\<lambda>b. Inr NaN)\<rparr>"

section \<open>Properties of the rounding to doubles\<close>

lemma pow2_pos [simp]: "0 < pow2 e"
  by (simp add: pow2_def)

lemma pow2_add: "pow2 (a + b) = pow2 a * pow2 b"
  by (simp add: pow2_def powr_add)

lemma pow2_mono: "a \<le> b \<Longrightarrow> pow2 a \<le> pow2 b"
  by (simp add: pow2_def)

lemma pow2_nat: "pow2 (int n) = 2 ^ n"
  by (simp add: pow2_def powr_realpow)

lemma pow2_neg_nat: "pow2 (- int n) = 1 / 2 ^ n"
  using powr_realpow [of 2 n]
  by (simp add: pow2_def powr_minus inverse_eq_divide)

lemma pow2_diff: "pow2 (a - b) = pow2 a / pow2 b"
  by (simp add: pow2_def powr_diff)

lemma rne_of_int [simp]: "rne (of_int k) = k"
  by (simp add: rne_def)

lemma rne_mono: "x \<le> y \<Longrightarrow> rne x \<le> rne y"
proof -
  assume xy: "x \<le> y"
  have fl: "\<lfloor>x\<rfloor> \<le> \<lfloor>y\<rfloor>" using xy by (rule floor_mono)
  have bx: "rne x \<le> \<lfloor>x\<rfloor> + 1" by (simp add: rne_def Let_def)
  have by': "\<lfloor>y\<rfloor> \<le> rne y" by (simp add: rne_def Let_def)
  show ?thesis
  proof (cases "\<lfloor>x\<rfloor> = \<lfloor>y\<rfloor>")
    case True
    with xy show ?thesis by (auto simp: rne_def Let_def)
  next
    case False
    with fl have "\<lfloor>x\<rfloor> + 1 \<le> \<lfloor>y\<rfloor>" by simp
    with bx by' show ?thesis by linarith
  qed
qed

lemma rne_nonneg: "0 \<le> x \<Longrightarrow> 0 \<le> rne x"
  using rne_mono [of 0 x] rne_of_int [of 0] by simp

lemma rne_ge: "of_int k \<le> x \<Longrightarrow> k \<le> rne x"
  using rne_mono [of "of_int k" x] by simp

lemma rne_le: "x \<le> of_int k \<Longrightarrow> rne x \<le> k"
  using rne_mono [of x "of_int k"] by simp

lemma floor_log2:
  assumes "0 < x"
  shows "pow2 \<lfloor>log 2 x\<rfloor> \<le> x \<and> x < pow2 (\<lfloor>log 2 x\<rfloor> + 1)"
  using floor_log_eq_powr_iff [of x 2 "\<lfloor>log 2 x\<rfloor>"] assms
  by (simp add: pow2_def)

lemma expo_upper:
  assumes "0 < x"
  shows "x < pow2 (expo x + 53)"
proof -
  have "\<lfloor>log 2 x\<rfloor> + 1 \<le> expo x + 53" by (simp add: expo_def)
  then have "pow2 (\<lfloor>log 2 x\<rfloor> + 1) \<le> pow2 (expo x + 53)" by (rule pow2_mono)
  with floor_log2 [OF assms] show ?thesis by linarith
qed

lemma expo_lower:
  assumes "0 < x" "- 1074 < expo x"
  shows "pow2 (expo x + 52) \<le> x"
proof -
  from assms(2) have "expo x = \<lfloor>log 2 x\<rfloor> - 52" by (simp add: expo_def max_def split: if_splits)
  then have "expo x + 52 = \<lfloor>log 2 x\<rfloor>" by simp
  with floor_log2 [OF assms(1)] show ?thesis by simp
qed

lemma expo_mono:
  assumes "0 < x" "x \<le> y"
  shows "expo x \<le> expo y"
proof -
  have "log 2 x \<le> log 2 y" using assms by simp
  then have "\<lfloor>log 2 x\<rfloor> \<le> \<lfloor>log 2 y\<rfloor>" by (rule floor_mono)
  then show ?thesis by (simp add: expo_def)
qed

lemma expo_ge [simp]: "- 1074 \<le> expo x"
  by (simp add: expo_def)

lemma expo_le:
  assumes "0 < x" "x < pow2 (e + 53)" "- 1074 \<le> e"
  shows "expo x \<le> e"
proof -
  have "pow2 \<lfloor>log 2 x\<rfloor> < pow2 (e + 53)"
    using floor_log2 [OF assms(1)] assms(2) by linarith
  then have "\<lfloor>log 2 x\<rfloor> < e + 53" by (simp add: pow2_def)
  with assms(3) show ?thesis by (simp add: expo_def)
qed

lemma pow2_nonneg [simp]: "0 \<le> pow2 e"
  using pow2_pos [of e] by linarith

lemma pow2_not_neg [simp]: "\<not> pow2 e < 0"
  using pow2_pos [of e] by linarith

lemma pow2_ne0 [simp]: "pow2 e \<noteq> 0"
  using pow2_pos [of e] by linarith

lemma jle_trans: "jle a b \<Longrightarrow> jle b c \<Longrightarrow> jle a c"
  by (cases a; cases b; cases c) auto

lemma jle_neg: "jle a b \<Longrightarrow> jle (jneg b) (jneg a)"
  by (cases a; cases b) auto

lemma round_pos_cases:
  "round_pos x = PosInf \<or> (\<exists>r. round_pos x = Fin r)"
  by (simp add: round_pos_def Let_def)

lemma round_pos_nonneg:
  assumes "0 < x"
  shows "jle (Fin 0) (round_pos x)"
proof -
  have "0 \<le> x / pow2 (expo x)" using assms by (simp add: less_imp_le)
  then have "0 \<le> rne (x / pow2 (expo x))" by (rule rne_nonneg)
  then have "0 \<le> of_int (rne (x / pow2 (expo x))) * pow2 (expo x)" by simp
  then show ?thesis by (simp add: round_pos_def Let_def)
qed

lemma round_pos_pre: "round_pos x = (if pow2 1024 \<le> pre x then PosInf else Fin (pre x))"
  by (simp add: round_pos_def pre_def Let_def)

lemma pre_mono:
  assumes "0 < x" "x \<le> y"
  shows "pre x \<le> pre y"
proof (cases "expo x = expo y")
  case True
  have "x / pow2 (expo y) \<le> y / pow2 (expo y)"
    using assms(2) by (rule divide_right_mono) simp
  then have "rne (x / pow2 (expo y)) \<le> rne (y / pow2 (expo y))" by (rule rne_mono)
  then show ?thesis by (simp add: pre_def True)
next
  case False
  with expo_mono [OF assms] have lt: "expo x < expo y" by simp
  have y: "0 < y" using assms by simp
  have "- 1074 < expo y" using lt expo_ge [of x] by linarith
  from expo_lower [OF y this] have "pow2 (expo y + 52) \<le> y" .
  then have "pow2 52 \<le> y / pow2 (expo y)"
    by (simp add: pow2_add le_divide_eq mult.commute)
  then have "of_int (2 ^ 52) \<le> y / pow2 (expo y)"
    using pow2_nat [of 52] by simp
  then have "2 ^ 52 \<le> rne (y / pow2 (expo y))" by (rule rne_ge)
  then have "(2 ^ 52 :: real) \<le> of_int (rne (y / pow2 (expo y)))"
    by (metis of_int_le_iff of_int_numeral of_int_power)
  then have "2 ^ 52 * pow2 (expo y) \<le> pre y"
    by (simp add: pre_def)
  then have hi: "pow2 (expo y + 52) \<le> pre y"
    using pow2_nat [of 52] by (simp add: pow2_add mult.commute)
  from expo_upper [OF assms(1)] have "x / pow2 (expo x) \<le> pow2 53"
    by (simp add: pow2_add divide_le_eq mult.commute)
  then have "x / pow2 (expo x) \<le> of_int (2 ^ 53)"
    using pow2_nat [of 53] by simp
  then have "rne (x / pow2 (expo x)) \<le> 2 ^ 53" by (rule rne_le)
  then have "of_int (rne (x / pow2 (expo x))) \<le> (2 ^ 53 :: real)"
    by (metis of_int_le_iff of_int_numeral of_int_power)
  then have "pre x \<le> 2 ^ 53 * pow2 (expo x)"
    by (simp add: pre_def)
  then have lo: "pre x \<le> pow2 (expo x + 53)"
    using pow2_nat [of 53] by (simp add: pow2_add mult.commute)
  have "expo x + 53 \<le> expo y + 52" using lt by simp
  then have "pow2 (expo x + 53) \<le> pow2 (expo y + 52)" by (rule pow2_mono)
  with lo hi show ?thesis by linarith
qed

lemma round_pos_mono:
  assumes "0 < x" "x \<le> y"
  shows "jle (round_pos x) (round_pos y)"
  using pre_mono [OF assms] by (simp add: round_pos_pre)

lemma pre_exact:
  assumes "0 < x" "x = of_int m * pow2 e" "\<bar>m\<bar> < 2 ^ 53" "- 1074 \<le> e"
  shows "pre x = x"
proof -
  have mpos: "0 < m" using assms(1,2) by (simp add: zero_less_mult_iff)
  have "of_int m < (2 ^ 53 :: real)"
    using assms(3) mpos by (metis abs_of_pos of_int_less_iff of_int_numeral of_int_power)
  then have "x < 2 ^ 53 * pow2 e" using assms(2) by simp
  then have "x < pow2 (e + 53)" using pow2_nat [of 53] by (simp add: pow2_add mult.commute)
  from expo_le [OF assms(1) this assms(4)] have le: "expo x \<le> e" .
  define E where "E = expo x"
  define n where "n = nat (e - E)"
  have e: "e = E + int n" using le by (simp add: n_def E_def)
  have pe: "pow2 e = pow2 (int n) * pow2 E" by (simp add: e pow2_add mult.commute)
  have xm: "x = of_int m * (pow2 (int n) * pow2 E)" using assms(2) pe by simp
  have "x / pow2 E = of_int m * pow2 (int n)" by (subst xm) simp
  also have "\<dots> = of_int (m * 2 ^ n)" by (simp add: pow2_nat)
  finally have "x / pow2 E = of_int (m * 2 ^ n)" .
  then have "rne (x / pow2 E) = m * 2 ^ n" by (simp only: rne_of_int)
  then have "of_int (rne (x / pow2 E)) * pow2 E = of_int (m * 2 ^ n) * pow2 E" by simp
  also have "\<dots> = of_int m * (pow2 (int n) * pow2 E)" by (simp add: pow2_nat)
  also have "\<dots> = x" by (rule xm [symmetric])
  finally show ?thesis by (simp add: pre_def E_def)
qed

lemma round_pos_exact:
  assumes "0 < x" "representable x"
  shows "round_pos x = Fin x"
proof -
  from assms(2) obtain m e where x: "x = of_int m * pow2 e" and m: "\<bar>m\<bar> < 2 ^ 53"
    and e: "- 1074 \<le> e" "e \<le> 971"
    by (auto simp: representable_def)
  from pre_exact [OF assms(1) x m e(1)] have p: "pre x = x" .
  have "\<bar>of_int m :: real\<bar> < 2 ^ 53"
    using m by (metis of_int_abs of_int_less_iff of_int_numeral of_int_power)
  then have "\<bar>of_int m :: real\<bar> * pow2 e < 2 ^ 53 * pow2 e"
    by (rule mult_strict_right_mono) simp
  then have "\<bar>x\<bar> < 2 ^ 53 * pow2 e" by (simp add: x abs_mult)
  also have "\<dots> \<le> 2 ^ 53 * pow2 971" using e(2) by (simp add: pow2_mono)
  also have "\<dots> = pow2 1024" using pow2_add [of 53 971] pow2_nat [of 53] by simp
  finally have "x < pow2 1024" by simp
  with p show ?thesis by (simp add: round_pos_pre)
qed

lemma representable_neg: "representable x \<Longrightarrow> representable (- x)"
  unfolding representable_def
  by (elim exE conjE, rule_tac x = "- m" in exI, rule_tac x = e in exI) simp

lemma dbl_exact: "representable x \<Longrightarrow> dbl x = Fin x"
  using round_pos_exact [of x] round_pos_exact [of "- x"] representable_neg [of x]
  by (simp add: dbl_def)

lemma dbl_neg: "dbl (- x) = jneg (dbl x)"
  by (cases "round_pos x"; cases "round_pos (- x)") (auto simp: dbl_def)

lemma dbl_not_NaN [simp]: "dbl x \<noteq> NaN"
  using round_pos_cases [of x] round_pos_cases [of "- x"] by (auto simp: dbl_def)

lemma dbl_nonneg: "0 \<le> x \<Longrightarrow> jle (Fin 0) (dbl x)"
  using round_pos_nonneg [of x] by (simp add: dbl_def)

lemma dbl_nonpos: "x \<le> 0 \<Longrightarrow> jle (dbl x) (Fin 0)"
  using dbl_nonneg [of "- x"] jle_neg [of "Fin 0" "dbl (- x)"] by (simp add: dbl_neg) (cases "dbl x"; simp)

lemma dbl_mono:
  assumes "x \<le> y"
  shows "jle (dbl x) (dbl y)"
proof -
  consider "0 < x" | "x \<le> 0" "0 \<le> y" | "y < 0" using assms by linarith
  then show ?thesis
  proof cases
    case 1
    with assms round_pos_mono [of x y] show ?thesis by (simp add: dbl_def)
  next
    case 2
    from jle_trans [OF dbl_nonpos [OF 2(1)] dbl_nonneg [OF 2(2)]] show ?thesis .
  next
    case 3
    with assms have "0 < - y" "- y \<le> - x" by simp_all
    from round_pos_mono [OF this] have "jle (round_pos (- y)) (round_pos (- x))" .
    from jle_neg [OF this] show ?thesis using 3 assms by (simp add: dbl_def)
  qed
qed

lemma pow2_less: "a < b \<Longrightarrow> pow2 a < pow2 b"
  by (simp add: pow2_def)

lemma representable_div:
  assumes "\<bar>m\<bar> < 2 ^ 53" "n \<le> 1074"
  shows "representable (of_int m / 2 ^ n)"
  unfolding representable_def
proof (intro exI conjI)
  show "of_int m / 2 ^ n = of_int m * pow2 (- int n)" by (simp add: pow2_neg_nat)
  show "\<bar>m\<bar> < 2 ^ 53" by fact
  show "- 1074 \<le> - int n" using assms(2) by simp
  show "- int n \<le> 971" by simp
qed

lemma representable_mult:
  assumes "\<bar>m\<bar> < 2 ^ 53" "n \<le> 971"
  shows "representable (of_int m * 2 ^ n)"
  unfolding representable_def
proof (intro exI conjI)
  show "of_int m * 2 ^ n = of_int m * pow2 (int n)" by (simp add: pow2_nat)
  show "\<bar>m\<bar> < 2 ^ 53" by fact
  show "- 1074 \<le> int n" by simp
  show "int n \<le> 971" using assms(2) by simp
qed

lemma representable_of_int: "\<bar>m\<bar> < 2 ^ 53 \<Longrightarrow> representable (of_int m)"
  using representable_mult [of m 0] by simp

lemma representable_of_nat: "n < 2 ^ 53 \<Longrightarrow> representable (real n)"
  using representable_of_int [of "int n"] by simp

lemma dbl_of_nat: "n < 2 ^ 53 \<Longrightarrow> dbl (real n) = Fin (real n)"
  by (rule dbl_exact) (rule representable_of_nat)

lemma dbl_numeral [simp]:
  "(numeral w :: int) < 2 ^ 53 \<Longrightarrow> dbl (numeral w) = Fin (numeral w)"
  using dbl_exact [OF representable_of_int [of "numeral w"]] by simp

lemma dbl_0 [simp]: "dbl 0 = Fin 0"
  by (simp add: dbl_def)

lemma dbl_1 [simp]: "dbl 1 = Fin 1"
  using dbl_exact [OF representable_of_int [of 1]] by simp

text \<open>Rounding stays between two doubles that enclose the number.\<close>

lemma dbl_between:
  assumes "representable lo" "representable hi" "lo \<le> x" "x \<le> hi"
  shows "\<exists>r. dbl x = Fin r \<and> lo \<le> r \<and> r \<le> hi"
proof -
  have l: "jle (Fin lo) (dbl x)"
    using dbl_mono [OF assms(3)] dbl_exact [OF assms(1)] by simp
  have h: "jle (dbl x) (Fin hi)"
    using dbl_mono [OF assms(4)] dbl_exact [OF assms(2)] by simp
  from l h show ?thesis by (cases "dbl x") auto
qed

lemma dbl_ge:
  assumes "representable lo" "lo \<le> x"
  shows "jle (Fin lo) (dbl x)"
  using dbl_mono [OF assms(2)] dbl_exact [OF assms(1)] by simp

lemma dbl_le:
  assumes "representable hi" "x \<le> hi"
  shows "jle (dbl x) (Fin hi)"
  using dbl_mono [OF assms(2)] dbl_exact [OF assms(1)] by simp

text \<open>The value of the rounding in the binade of exponent \<open>e + 52\<close>.\<close>

lemma dbl_eval:
  assumes "pow2 (e + 52) \<le> x" "x < pow2 (e + 53)" "- 1074 \<le> e" "e < 971"
  shows "dbl x = Fin (of_int (rne (x / pow2 e)) * pow2 e)"
proof -
  have pos: "0 < x" using assms(1) pow2_pos [of "e + 52"] by linarith
  have "\<lfloor>log 2 x\<rfloor> = e + 52"
    using floor_log_eq_powr_iff [of x 2 "e + 52"] pos assms(1,2)
    by (simp add: pow2_def add.commute)
  then have ex: "expo x = e" using assms(3) by (simp add: expo_def)
  have "x / pow2 e \<le> pow2 53"
    using assms(2) by (simp add: pow2_add divide_le_eq mult.commute)
  then have "x / pow2 e \<le> of_int (2 ^ 53)" using pow2_nat [of 53] by simp
  then have "rne (x / pow2 e) \<le> 2 ^ 53" by (rule rne_le)
  then have "of_int (rne (x / pow2 e)) \<le> (2 ^ 53 :: real)"
    by (metis of_int_le_iff of_int_numeral of_int_power)
  then have "of_int (rne (x / pow2 e)) * pow2 e \<le> 2 ^ 53 * pow2 e"
    by (rule mult_right_mono) simp
  also have "\<dots> = pow2 (e + 53)" using pow2_nat [of 53] by (simp add: pow2_add mult.commute)
  also have "\<dots> < pow2 1024" by (rule pow2_less) (use assms(4) in simp)
  finally have "\<not> pow2 1024 \<le> of_int (rne (x / pow2 e)) * pow2 e" by simp
  then show ?thesis using pos by (simp add: dbl_def round_pos_def ex Let_def)
qed

lemma lit_035: "lit (35 / 100) = Fin (3152519739159347 / 2 ^ 53)"
proof -
  have p: "pow2 (- 54) = 1 / 2 ^ 54" using pow2_neg_nat [of 54] by simp
  have lo: "pow2 (- 54 + 52) \<le> (35 / 100 :: real)"
    using pow2_neg_nat [of 2] by simp
  have hi: "(35 / 100 :: real) < pow2 (- 54 + 53)"
    using pow2_neg_nat [of 1] by simp
  from dbl_eval [OF lo hi] show ?thesis
    by (simp add: lit_def p rne_def Let_def)
qed

lemma lit_eps: "\<exists>e. lit (1 / 10 ^ 9) = Fin e \<and> 1 / 2 ^ 30 \<le> e \<and> e \<le> 1 / 2 ^ 29"
proof -
  have "representable (of_int 1 / 2 ^ 30)" "representable (of_int 1 / 2 ^ 29)"
    by (rule representable_div; simp)+
  then have "representable (1 / 2 ^ 30)" "representable (1 / 2 ^ 29)" by simp_all
  from dbl_between [OF this, of "1 / 10 ^ 9"] show ?thesis by (simp add: lit_def)
qed

lemma lit_unit:
  assumes "0 \<le> x" "x \<le> 1"
  shows "\<exists>k. lit x = Fin k \<and> 0 \<le> k \<and> k \<le> 1"
proof -
  have "representable 0" "representable 1"
    using representable_of_int [of 0] representable_of_int [of 1] by simp_all
  from dbl_between [OF this assms] show ?thesis by (simp add: lit_def)
qed

text \<open>
  Two products of the quantization at which the rounding of the product decides the
  cell: the double nearest to 0.00015 and the double nearest to 77.10005.
\<close>

lemma cell_of_0_00015:
  "Math_round (jmul (Fin (5534023222112865 / 2 ^ 65)) (Fin 10000)) = Fin 1"
proof -
  let ?x = "5534023222112865 / 2 ^ 65 * 10000 :: real"
  have p: "pow2 (- 52) = 1 / 2 ^ 52" using pow2_neg_nat [of 52] by simp
  have lo: "pow2 (- 52 + 52) \<le> ?x" using pow2_nat [of 0] by simp
  have hi: "?x < pow2 (- 52 + 53)" using pow2_nat [of 1] by simp
  from dbl_eval [OF lo hi] have "dbl ?x = Fin (6755399441055743 / 2 ^ 52)"
    by (simp add: p rne_def Let_def)
  then show ?thesis by simp
qed

lemma cell_of_77_10005:
  "Math_round (jmul (Fin (5425433694535103 / 2 ^ 46)) (Fin 10000)) = Fin 771001"
proof -
  let ?x = "5425433694535103 / 2 ^ 46 * 10000 :: real"
  have p: "pow2 (- 33) = 1 / 2 ^ 33" using pow2_neg_nat [of 33] by simp
  have lo: "pow2 (- 33 + 52) \<le> ?x" using pow2_nat [of 19] by simp
  have hi: "?x < pow2 (- 33 + 53)" using pow2_nat [of 20] by simp
  from dbl_eval [OF lo hi] have "dbl ?x = Fin (1542001 / 2)"
    by (simp add: p rne_def Let_def)
  then show ?thesis by simp
qed

text \<open>
  A number at which the rounding of the literal decides the digits that \<^verbatim>\<open>toFixed\<close>
  prints: the double nearest to 0.0375 is below 0.0375, and is printed as 0.037.
\<close>

lemma toFixed_of_0_0375: "toFixed 3 (lit (3 / 80)) = lit (37 / 1000)"
proof -
  have p: "pow2 (- 57) = 1 / 2 ^ 57" using pow2_neg_nat [of 57] by simp
  have lo: "pow2 (- 57 + 52) \<le> (3 / 80 :: real)" using pow2_neg_nat [of 5] by simp
  have hi: "(3 / 80 :: real) < pow2 (- 57 + 53)" using pow2_neg_nat [of 4] by simp
  from dbl_eval [OF lo hi] have "dbl (3 / 80) = Fin (5404319552844595 / 2 ^ 57)"
    by (simp add: p rne_def Let_def)
  then show ?thesis by (simp add: lit_def)
qed

section \<open>Properties of normClip and of the score\<close>

lemma is_fin_iff: "is_fin v = (\<exists>x. v = Fin x)"
  by (cases v) auto

lemma rep_0: "representable 0"
  using representable_of_int [of 0] by simp

lemma rep_1: "representable 1"
  using representable_of_int [of 1] by simp

lemma rep_numeral: "(numeral w :: int) < 2 ^ 53 \<Longrightarrow> representable (numeral w)"
  using representable_of_int [of "numeral w"] by simp

lemma rep_half: "representable (1 / 2)"
  using representable_div [of 1 1] by simp

text \<open>The clamp \<^verbatim>\<open>Math.max(0.0, Math.min(1.0, q))\<close>.\<close>

lemma clamp_cases:
  "Math_max (Fin 0) (Math_min (Fin 1) q) = NaN \<and> q = NaN
   \<or> (\<exists>r. Math_max (Fin 0) (Math_min (Fin 1) q) = Fin r \<and> 0 \<le> r \<and> r \<le> 1 \<and> q \<noteq> NaN)"
  by (cases q) auto

lemma clamp_mono:
  "jle p q \<Longrightarrow> jle (Math_max (Fin 0) (Math_min (Fin 1) p)) (Math_max (Fin 0) (Math_min (Fin 1) q))"
  by (cases p; cases q) auto

lemma normClip_unit_or_NaN:
  "normClip x a b = NaN \<or> (\<exists>r. normClip x a b = Fin r \<and> 0 \<le> r \<and> r \<le> 1)"
  using clamp_cases [of "jdiv (jsub x a) (jadd (jsub b a) (lit (1 / 10 ^ 9)))"]
  by (auto simp: normClip_def)

lemma jdiv_not_NaN: "n \<noteq> NaN \<Longrightarrow> d \<noteq> 0 \<Longrightarrow> jdiv n (Fin d) \<noteq> NaN"
  by (cases n) (auto simp: signed_inf_def)

lemma jsub_Fin_not_NaN: "v \<noteq> NaN \<Longrightarrow> jsub v (Fin a) \<noteq> NaN"
  by (cases v) (auto simp: jsub_def)

text \<open>The denominator for the bounds \<open>0\<close> and \<open>c\<close> of the four terms of the score.\<close>

lemma denominator_const:
  assumes "representable c" "representable (c + 1)" "0 \<le> c"
  shows "\<exists>d. jadd (jsub (Fin c) (Fin 0)) (lit (1 / 10 ^ 9)) = Fin d \<and> 0 < d \<and> d \<le> c + 1"
proof -
  obtain e where e: "lit (1 / 10 ^ 9) = Fin e" "1 / 2 ^ 30 \<le> e" "e \<le> 1 / 2 ^ 29"
    using lit_eps by blast
  have c: "jsub (Fin c) (Fin 0) = Fin c"
    using dbl_exact [OF assms(1)] by (simp add: jsub_def)
  have "c \<le> c + e" using e(2) by (smt (verit) divide_nonneg_nonneg zero_le_numeral zero_le_power)
  moreover have "c + e \<le> c + 1"
    using e(3) by (smt (verit) divide_le_eq_1_pos one_le_numeral one_le_power zero_less_numeral zero_less_power)
  ultimately obtain d where d: "dbl (c + e) = Fin d" "c \<le> d" "d \<le> c + 1"
    using dbl_between [OF assms(1,2), of "c + e"] by blast
  have "0 < c + e" using assms(3) e(2)
    by (smt (verit) divide_pos_pos zero_less_numeral zero_less_power)
  then have "0 < d"
  proof -
    have r: "representable (1 / 2 ^ 30)" using representable_div [of 1 30] by simp
    have "1 / 2 ^ 30 \<le> c + e" using assms(3) e(2) by linarith
    from dbl_ge [OF r this] d(1) have "1 / 2 ^ 30 \<le> d" by simp
    then show ?thesis by (smt (verit) divide_pos_pos zero_less_numeral zero_less_power)
  qed
  with c e(1) d show ?thesis by simp
qed

lemma normClip_const_unit:
  assumes "representable c" "representable (c + 1)" "0 \<le> c" "v \<noteq> NaN"
  shows "\<exists>r. normClip v (Fin 0) (Fin c) = Fin r \<and> 0 \<le> r \<and> r \<le> 1"
proof -
  from denominator_const [OF assms(1-3)] obtain d where
    d: "jadd (jsub (Fin c) (Fin 0)) (lit (1 / 10 ^ 9)) = Fin d" "0 < d" by blast
  have "jdiv (jsub v (Fin 0)) (Fin d) \<noteq> NaN"
    by (rule jdiv_not_NaN [OF jsub_Fin_not_NaN [OF assms(4)]]) (use d(2) in simp)
  moreover have "normClip v (Fin 0) (Fin c) =
      Math_max (Fin 0) (Math_min (Fin 1) (jdiv (jsub v (Fin 0)) (Fin d)))"
    unfolding normClip_def d(1) ..
  ultimately show ?thesis
    using clamp_cases [of "jdiv (jsub v (Fin 0)) (Fin d)"] by auto
qed

lemma half_sum_unit:
  assumes "0 \<le> p" "p \<le> 1" "0 \<le> q" "q \<le> 1"
  shows "\<exists>r. jadd (jmul (Fin (1 / 2)) (Fin p)) (jmul (Fin (1 / 2)) (Fin q)) = Fin r
             \<and> 0 \<le> r \<and> r \<le> 1"
proof -
  obtain u where u: "dbl (1 / 2 * p) = Fin u" "0 \<le> u" "u \<le> 1 / 2"
    using dbl_between [OF rep_0 rep_half, of "1 / 2 * p"] assms by auto
  obtain v where v: "dbl (1 / 2 * q) = Fin v" "0 \<le> v" "v \<le> 1 / 2"
    using dbl_between [OF rep_0 rep_half, of "1 / 2 * q"] assms by auto
  obtain r where r: "dbl (u + v) = Fin r" "0 \<le> r" "r \<le> 1"
    using dbl_between [OF rep_0 rep_1, of "u + v"] u v by auto
  show ?thesis using u v r by simp
qed

lemma half_sum_unit_or_NaN:
  assumes "p = NaN \<or> (\<exists>r. p = Fin r \<and> 0 \<le> r \<and> r \<le> 1)"
    and "q = NaN \<or> (\<exists>r. q = Fin r \<and> 0 \<le> r \<and> r \<le> 1)"
  shows "jadd (jmul (Fin (1 / 2)) p) (jmul (Fin (1 / 2)) q) = NaN
       \<or> (\<exists>r. jadd (jmul (Fin (1 / 2)) p) (jmul (Fin (1 / 2)) q) = Fin r \<and> 0 \<le> r \<and> r \<le> 1)"
proof (cases "p = NaN \<or> q = NaN")
  case True
  then show ?thesis by (cases "jmul (Fin (1 / 2)) p") auto
next
  case False
  with assms obtain x y where "p = Fin x" "0 \<le> x" "x \<le> 1" "q = Fin y" "0 \<le> y" "y \<le> 1"
    by auto
  with half_sum_unit [of x y] show ?thesis by simp
qed

lemma infra_score_unit_or_NaN:
  "infra_score x y = NaN \<or> (\<exists>r. infra_score x y = Fin r \<and> 0 \<le> r \<and> r \<le> 1)"
  unfolding infra_score_def
  by (rule half_sum_unit_or_NaN) (rule normClip_unit_or_NaN)+

lemma access_score_unit_or_NaN:
  "access_score x y = NaN \<or> (\<exists>r. access_score x y = Fin r \<and> 0 \<le> r \<and> r \<le> 1)"
  unfolding access_score_def
  by (rule half_sum_unit_or_NaN) (rule normClip_unit_or_NaN)+

lemma infra_score_unit:
  assumes "x \<noteq> NaN" "y \<noteq> NaN"
  shows "\<exists>r. infra_score x y = Fin r \<and> 0 \<le> r \<and> r \<le> 1"
proof -
  have r10: "representable 10" "representable (10 + 1)" by (simp_all add: rep_numeral)
  have r200: "representable 200" "representable (200 + 1)" by (simp_all add: rep_numeral)
  obtain p where p: "normClip x (Fin 0) (Fin 10) = Fin p" "0 \<le> p" "p \<le> 1"
    using normClip_const_unit [OF r10 _ assms(1)] by auto
  obtain q where q: "normClip y (Fin 0) (Fin 200) = Fin q" "0 \<le> q" "q \<le> 1"
    using normClip_const_unit [OF r200 _ assms(2)] by auto
  from half_sum_unit [OF p(2,3) q(2,3)] show ?thesis by (simp add: infra_score_def p(1) q(1))
qed

lemma access_score_unit:
  assumes "x \<noteq> NaN" "y \<noteq> NaN"
  shows "\<exists>r. access_score x y = Fin r \<and> 0 \<le> r \<and> r \<le> 1"
proof -
  have r5: "representable 5" "representable (5 + 1)" by (simp_all add: rep_numeral)
  have r8: "representable 8" "representable (8 + 1)" by (simp_all add: rep_numeral)
  obtain p where p: "normClip x (Fin 0) (Fin 5) = Fin p" "0 \<le> p" "p \<le> 1"
    using normClip_const_unit [OF r5 _ assms(1)] by auto
  obtain q where q: "normClip y (Fin 0) (Fin 8) = Fin q" "0 \<le> q" "q \<le> 1"
    using normClip_const_unit [OF r8 _ assms(2)] by auto
  from half_sum_unit [OF p(2,3) q(2,3)] show ?thesis by (simp add: access_score_def p(1) q(1))
qed

lemma socio_score_range:
  assumes "0 \<le> i" "i \<le> 1" "0 \<le> a" "a \<le> 1"
  shows "\<exists>t. socio_score (Fin i) (Fin a) = Fin t \<and> 0 \<le> t \<and> t \<le> 70"
proof -
  define k :: real where "k = 3152519739159347 / 2 ^ 53"
  have k: "lit (35 / 100) = Fin k" unfolding k_def by (rule lit_035)
  have k0: "0 \<le> k" and k35: "k \<le> 35 / 100" by (simp_all add: k_def)
  have rk: "representable k"
    using representable_div [of 3152519739159347 53] by (simp add: k_def)
  have r2k: "representable (2 * k)"
    using representable_div [of 3152519739159347 52] by (simp add: k_def)
  have r70: "representable 70" by (simp add: rep_numeral)
  obtain k2 where k2: "lit (2 / 10) = Fin k2" using lit_unit [of "2 / 10"] by auto
  obtain k1 where k1: "lit (1 / 10) = Fin k1" using lit_unit [of "1 / 10"] by auto
  have "0 \<le> k * i" "k * i \<le> k"
    using assms(1,2) k0 by (simp_all add: mult_left_le)
  then obtain A where A: "dbl (k * i) = Fin A" "0 \<le> A" "A \<le> k"
    using dbl_between [OF rep_0 rk, of "k * i"] by auto
  have "0 \<le> k * a" "k * a \<le> k"
    using assms(3,4) k0 by (simp_all add: mult_left_le)
  then obtain B where B: "dbl (k * a) = Fin B" "0 \<le> B" "B \<le> k"
    using dbl_between [OF rep_0 rk, of "k * a"] by auto
  obtain S1 where S1: "dbl (A + B) = Fin S1" "0 \<le> S1" "S1 \<le> 2 * k"
    using dbl_between [OF rep_0 r2k, of "A + B"] A B by auto
  obtain S2 where S2: "dbl (S1 + 0) = Fin S2" "0 \<le> S2" "S2 \<le> 2 * k"
    using dbl_between [OF rep_0 r2k, of "S1 + 0"] S1 by auto
  obtain S3 where S3: "dbl (S2 + 0) = Fin S3" "0 \<le> S3" "S3 \<le> 2 * k"
    using dbl_between [OF rep_0 r2k, of "S2 + 0"] S2 by auto
  have "0 \<le> 100 * S3" "100 * S3 \<le> 70" using S3 k35 by simp_all
  then obtain t where t: "dbl (100 * S3) = Fin t" "0 \<le> t" "t \<le> 70"
    using dbl_between [OF rep_0 r70, of "100 * S3"] by auto
  have "socio_score (Fin i) (Fin a) = Fin t"
    unfolding socio_score_def Let_def k k1 k2
    using A(1) B(1) S1(1) S2(1) S3(1) t(1) by simp
  with t show ?thesis by blast
qed

lemma socio_score_NaN: "i = NaN \<or> a = NaN \<Longrightarrow> socio_score i a = NaN"
proof -
  define k :: real where "k = 3152519739159347 / 2 ^ 53"
  have k: "lit (35 / 100) = Fin k" unfolding k_def by (rule lit_035)
  assume "i = NaN \<or> a = NaN"
  then have "jadd (jmul (Fin k) i) (jmul (Fin k) a) = NaN"
    by (cases "jmul (Fin k) i") auto
  then show ?thesis unfolding socio_score_def Let_def k by simp
qed

lemma toFixed_range:
  assumes "0 \<le> x" "x \<le> real n" "n < 2 ^ 53"
  shows "\<exists>s. toFixed d (Fin x) = Fin s \<and> 0 \<le> s \<and> s \<le> real n"
proof (cases "10 ^ 21 \<le> \<bar>x\<bar>")
  case True
  then show ?thesis using assms by simp
next
  case False
  have p: "(0::real) < 10 ^ d" by simp
  have "x * 10 ^ d + 1 / 2 \<le> real (n * 10 ^ d) + 1 / 2"
    using assms p by (simp add: mult_right_mono)
  then have "\<lfloor>x * 10 ^ d + 1 / 2\<rfloor> \<le> \<lfloor>real (n * 10 ^ d) + 1 / 2\<rfloor>"
    by (rule floor_mono)
  also have "\<lfloor>real (n * 10 ^ d) + 1 / 2\<rfloor> = int (n * 10 ^ d)"
    by linarith
  finally have up: "real_of_int \<lfloor>x * 10 ^ d + 1 / 2\<rfloor> \<le> real (n * 10 ^ d)"
    by (metis of_int_le_iff of_int_of_nat_eq)
  have "0 \<le> x * 10 ^ d + 1 / 2" using assms by simp
  then have lo: "0 \<le> \<lfloor>x * 10 ^ d + 1 / 2\<rfloor>" by simp
  have hi: "real_of_int \<lfloor>x * 10 ^ d + 1 / 2\<rfloor> / 10 ^ d \<le> real n"
    using up p by (simp add: divide_le_eq)
  have lo': "0 \<le> real_of_int \<lfloor>x * 10 ^ d + 1 / 2\<rfloor> / 10 ^ d"
    using lo by simp
  from dbl_between [OF rep_0 representable_of_nat [OF assms(3)] lo' hi]
  show ?thesis using False assms by simp
qed

lemma score_range_or_NaN:
  "toFixed 1 (socio_score (infra_score x y) (access_score u v)) = NaN
   \<or> (\<exists>s. toFixed 1 (socio_score (infra_score x y) (access_score u v)) = Fin s
           \<and> 0 \<le> s \<and> s \<le> 70)"
proof (cases "infra_score x y = NaN \<or> access_score u v = NaN")
  case True
  from socio_score_NaN [OF this] show ?thesis by simp
next
  case False
  with infra_score_unit_or_NaN [of x y] access_score_unit_or_NaN [of u v]
  obtain p q where p: "infra_score x y = Fin p" "0 \<le> p" "p \<le> 1"
    and q: "access_score u v = Fin q" "0 \<le> q" "q \<le> 1" by auto
  from socio_score_range [OF p(2,3) q(2,3)] obtain t where
    t: "socio_score (Fin p) (Fin q) = Fin t" "0 \<le> t" "t \<le> real 70" by auto
  from toFixed_range [OF t(2,3), of 1] show ?thesis
    by (simp add: p(1) q(1) t(1))
qed

lemma score_range:
  assumes "x \<noteq> NaN" "y \<noteq> NaN" "u \<noteq> NaN" "v \<noteq> NaN"
  shows "\<exists>s. toFixed 1 (socio_score (infra_score x y) (access_score u v)) = Fin s
           \<and> 0 \<le> s \<and> s \<le> 70"
proof -
  obtain p where p: "infra_score x y = Fin p" "0 \<le> p" "p \<le> 1"
    using infra_score_unit [OF assms(1,2)] by blast
  obtain q where q: "access_score u v = Fin q" "0 \<le> q" "q \<le> 1"
    using access_score_unit [OF assms(3,4)] by blast
  from socio_score_range [OF p(2,3) q(2,3)] obtain t where
    t: "socio_score (Fin p) (Fin q) = Fin t" "0 \<le> t" "t \<le> real 70" by auto
  from toFixed_range [OF t(2,3), of 1] show ?thesis
    by (simp add: p(1) q(1) t(1))
qed

text \<open>The densities are not NaN when the area and the road length are finite.\<close>

lemma jdiv_Fin_not_NaN: "q \<noteq> NaN \<Longrightarrow> q \<noteq> Fin 0 \<Longrightarrow> jdiv (Fin p) q \<noteq> NaN"
  by (cases q) auto

lemma pointDensity_not_NaN: "a \<noteq> NaN \<Longrightarrow> pointDensityPerKm2 fc a \<noteq> NaN"
  by (auto simp: pointDensityPerKm2_def jdiv_Fin_not_NaN split: option.splits)

lemma intersectionDensity_not_NaN: "a \<noteq> NaN \<Longrightarrow> intersectionDensityPerKm2 fc a \<noteq> NaN"
  by (auto simp: intersectionDensityPerKm2_def Let_def jdiv_Fin_not_NaN split: option.splits)

lemma compute_metrics_score_or_NaN:
  assumes m: "compute_metrics e b ro bo ao = Inr m"
  shows "SocioEconScore m = NaN \<or> (\<exists>s. SocioEconScore m = Fin s \<and> 0 \<le> s \<and> s \<le> 70)"
proof -
  from m obtain x y u v where
    "SocioEconScore m = toFixed 1 (socio_score (infra_score x y) (access_score u v))"
    by (auto simp: compute_metrics_def ebind_def Let_def split: sum.splits)
  then show ?thesis using score_range_or_NaN [of x y u v] by simp
qed

lemma compute_metrics_score:
  assumes m: "compute_metrics e b ro bo ao = Inr m"
    and area: "\<forall>a. turf_area e b = Inr a \<longrightarrow> is_fin a"
    and len: "\<forall>roadsGeo l. osmToGeoJSON ro [''way''] = Inr roadsGeo \<longrightarrow>
                lengthKm e (Some roadsGeo) = Inr l \<longrightarrow> is_fin l"
  shows "\<exists>s. SocioEconScore m = Fin s \<and> 0 \<le> s \<and> s \<le> 70"
proof -
  from m obtain roadsGeo a road_km hospitals schools where
    rg: "osmToGeoJSON ro [''way''] = Inr roadsGeo"
    and ta: "turf_area e b = Inr a"
    and rk: "lengthKm e (Some roadsGeo) = Inr road_km"
    and sc: "SocioEconScore m = toFixed 1 (socio_score
        (infra_score (if jdiv a (Fin 1000000) = Fin 0 then Fin 0
                      else jdiv road_km (jdiv a (Fin 1000000)))
           (intersectionDensityPerKm2 (Some roadsGeo) (jdiv a (Fin 1000000))))
        (access_score (pointDensityPerKm2 (Some hospitals) (jdiv a (Fin 1000000)))
           (pointDensityPerKm2 (Some schools) (jdiv a (Fin 1000000)))))"
    by (auto simp: compute_metrics_def ebind_def turf_def Let_def split: sum.splits)
  from ta area obtain A where A: "a = Fin A" by (auto simp: is_fin_iff)
  from rg rk len obtain R where R: "road_km = Fin R" by (auto simp: is_fin_iff)
  have fa: "jdiv a (Fin 1000000) \<noteq> NaN" by (simp add: A)
  have x: "(if jdiv a (Fin 1000000) = Fin 0 then Fin 0
            else jdiv road_km (jdiv a (Fin 1000000))) \<noteq> NaN"
    using fa by (simp add: R jdiv_Fin_not_NaN)
  show ?thesis unfolding sc
    by (rule score_range [OF x intersectionDensity_not_NaN [OF fa]
          pointDensity_not_NaN [OF fa] pointDensity_not_NaN [OF fa]])
qed

lemma jsub_Fin: "jsub (Fin x) (Fin a) = dbl (x - a)"
  by (simp add: jsub_def)

lemma dbl_cases: "(\<exists>r. dbl x = Fin r) \<or> dbl x = PosInf \<or> dbl x = NegInf"
  by (cases "dbl x") auto

lemma denominator_not_NaN: "jadd (jsub (Fin b) (Fin a)) (lit (1 / 10 ^ 9)) \<noteq> NaN"
proof -
  obtain e where e: "lit (1 / 10 ^ 9) = Fin e" using lit_eps by blast
  show ?thesis unfolding e jsub_Fin using dbl_cases [of "b - a"] by auto
qed

lemma clamp_NaN_iff: "(Math_max (Fin 0) (Math_min (Fin 1) q) = NaN) = (q = NaN)"
  by (cases q) auto

lemma jdiv_NaN_iff:
  assumes "n \<noteq> NaN" "d \<noteq> NaN"
  shows "(jdiv n d = NaN) = ((n = Fin 0 \<and> d = Fin 0) \<or> (\<not> is_fin n \<and> \<not> is_fin d))"
  using assms by (cases n; cases d) (auto simp: signed_inf_def)

lemma denominator_ordered:
  assumes "a \<le> b" "b - a \<le> 2 ^ 1023"
  shows "\<exists>dd. jadd (jsub (Fin b) (Fin a)) (lit (1 / 10 ^ 9)) = Fin dd \<and> 0 < dd"
proof -
  obtain e where e: "lit (1 / 10 ^ 9) = Fin e" "1 / 2 ^ 30 \<le> e" "e \<le> 1 / 2 ^ 29"
    using lit_eps by blast
  have e1: "e \<le> 1"
    using e(3) by (smt (verit) divide_le_eq_1_pos one_le_numeral one_le_power zero_less_numeral zero_less_power)
  have "(2::real) ^ 1023 = of_int (2 ^ 52) * 2 ^ 971" by (simp add: power_add [symmetric])
  then have rt: "representable (2 ^ 1023)"
    using representable_mult [of "2 ^ 52" 971] by simp
  have "(2::real) ^ 1023 + 2 ^ 971 = of_int (2 ^ 52 + 1) * 2 ^ 971"
    by (simp add: power_add [symmetric] algebra_simps)
  then have rh: "representable (2 ^ 1023 + 2 ^ 971)"
    using representable_mult [of "2 ^ 52 + 1" 971] by simp
  have rl: "representable (1 / 2 ^ 30)" using representable_div [of 1 30] by simp
  obtain t where t: "dbl (b - a) = Fin t" "0 \<le> t" "t \<le> 2 ^ 1023"
    using dbl_between [OF rep_0 rt, of "b - a"] assms by auto
  have "(1::real) \<le> 2 ^ 971" by simp
  then have "t + e \<le> 2 ^ 1023 + 2 ^ 971" using t(3) e1 by linarith
  moreover have "1 / 2 ^ 30 \<le> t + e" using t(2) e(2) by linarith
  ultimately obtain dd where dd: "dbl (t + e) = Fin dd" "1 / 2 ^ 30 \<le> dd"
    using dbl_between [OF rl rh, of "t + e"] by auto
  have "0 < dd" using dd(2) by (smt (verit) divide_pos_pos zero_less_numeral zero_less_power)
  then show ?thesis unfolding e(1) jsub_Fin t(1) using dd(1) by simp
qed

lemma jle_NegInf: "v \<noteq> NaN \<Longrightarrow> jle NegInf v"
  by (cases v) auto

lemma jle_PosInf: "v \<noteq> NaN \<Longrightarrow> jle v PosInf"
  by (cases v) auto

lemma jdiv_pos_mono:
  assumes "jle p q" "0 < dd"
  shows "jle (jdiv p (Fin dd)) (jdiv q (Fin dd))"
proof (cases p)
  case (Fin x)
  note p = this
  show ?thesis
  proof (cases q)
    case (Fin y)
    with p assms have "x / dd \<le> y / dd" by (simp add: divide_right_mono)
    from dbl_mono [OF this] show ?thesis using p Fin assms(2) by simp
  next
    case PosInf
    with p assms(2) show ?thesis by (simp add: signed_inf_def jle_PosInf)
  qed (use p assms in auto)
next
  case PosInf
  with assms show ?thesis by (cases q) (auto simp: signed_inf_def)
next
  case NegInf
  with assms show ?thesis by (cases q) (auto simp: signed_inf_def jle_NegInf)
qed (use assms in auto)

lemma normClip_mono:
  assumes d: "jadd (jsub (Fin b) (Fin a)) (lit (1 / 10 ^ 9)) = Fin dd" "0 < dd"
    and xy: "x \<le> y"
  shows "jle (normClip (Fin x) (Fin a) (Fin b)) (normClip (Fin y) (Fin a) (Fin b))"
proof -
  have "x - a \<le> y - a" using xy by simp
  then have "jle (jsub (Fin x) (Fin a)) (jsub (Fin y) (Fin a))"
    unfolding jsub_Fin by (rule dbl_mono)
  from clamp_mono [OF jdiv_pos_mono [OF this d(2)]] show ?thesis
    unfolding normClip_def d(1) .
qed

lemma normClip_zero:
  assumes d: "jadd (jsub (Fin b) (Fin a)) (lit (1 / 10 ^ 9)) = Fin dd" "0 < dd"
    and xa: "x \<le> a"
  shows "normClip (Fin x) (Fin a) (Fin b) = Fin 0"
proof -
  have "jle (jsub (Fin x) (Fin a)) (Fin 0)" using xa by (simp add: jsub_Fin dbl_nonpos)
  then have "jle (jdiv (jsub (Fin x) (Fin a)) (Fin dd)) (jdiv (Fin 0) (Fin dd))"
    by (rule jdiv_pos_mono) (rule d(2))
  then have "jle (jdiv (jsub (Fin x) (Fin a)) (Fin dd)) (Fin 0)" using d(2) by simp
  then have "Math_max (Fin 0) (Math_min (Fin 1) (jdiv (jsub (Fin x) (Fin a)) (Fin dd))) = Fin 0"
    by (cases "jdiv (jsub (Fin x) (Fin a)) (Fin dd)") auto
  then show ?thesis unfolding normClip_def d(1) .
qed

lemma normClip_one:
  assumes d: "jadd (jsub (Fin b) (Fin a)) (lit (1 / 10 ^ 9)) = Fin dd" "0 < dd"
    and nd: "jle (Fin dd) (jsub (Fin x) (Fin a))"
  shows "normClip (Fin x) (Fin a) (Fin b) = Fin 1"
proof -
  have "jle (jdiv (Fin dd) (Fin dd)) (jdiv (jsub (Fin x) (Fin a)) (Fin dd))"
    using nd d(2) by (rule jdiv_pos_mono)
  then have "jle (Fin 1) (jdiv (jsub (Fin x) (Fin a)) (Fin dd))" using d(2) by simp
  then have "Math_max (Fin 0) (Math_min (Fin 1) (jdiv (jsub (Fin x) (Fin a)) (Fin dd))) = Fin 1"
    by (cases "jdiv (jsub (Fin x) (Fin a)) (Fin dd)") auto
  then show ?thesis unfolding normClip_def d(1) .
qed

lemma normClip_between:
  assumes d: "jadd (jsub (Fin b) (Fin a)) (lit (1 / 10 ^ 9)) = Fin dd" "0 < dd"
    and n: "jsub (Fin x) (Fin a) = Fin nn" "0 \<le> nn" "nn \<le> dd"
  shows "normClip (Fin x) (Fin a) (Fin b) = dbl (nn / dd)"
proof -
  have "0 \<le> nn / dd" "nn / dd \<le> 1" using d(2) n(2,3) by simp_all
  from dbl_between [OF rep_0 rep_1 this] obtain r where
    r: "dbl (nn / dd) = Fin r" "0 \<le> r" "r \<le> 1" by blast
  show ?thesis unfolding normClip_def d(1) n(1) using d(2) r by simp
qed

lemma normClip_at_10: "\<exists>r. normClip (Fin 10) (Fin 0) (Fin 10) = Fin r \<and> r \<le> 1 - 1 / 2 ^ 35"
proof -
  obtain e where e: "lit (1 / 10 ^ 9) = Fin e" "1 / 2 ^ 30 \<le> e" "e \<le> 1 / 2 ^ 29"
    using lit_eps by blast
  have e1: "e \<le> 1"
    using e(3) by (smt (verit) divide_le_eq_1_pos one_le_numeral one_le_power zero_less_numeral zero_less_power)
  have n: "jsub (Fin 10) (Fin 0) = Fin 10" by (simp add: jsub_Fin)
  have rl: "representable (10 + 1 / 2 ^ 30)"
    using representable_div [of "10 * 2 ^ 30 + 1" 30] by (simp add: field_simps)
  have rh: "representable 11" by (simp add: rep_numeral)
  obtain dd where dd: "dbl (10 + e) = Fin dd" "10 + 1 / 2 ^ 30 \<le> dd" "dd \<le> 11"
    using dbl_between [OF rl rh, of "10 + e"] e(2) e1 by auto
  have d: "jadd (jsub (Fin 10) (Fin 0)) (lit (1 / 10 ^ 9)) = Fin dd"
    unfolding n e(1) using dd(1) by simp
  have pos: "0 < dd" using dd(2)
    by (smt (verit) divide_nonneg_nonneg zero_le_numeral zero_le_power)
  have "10 / dd \<le> 10 / (10 + 1 / 2 ^ 30)"
    using dd(2) by (intro divide_left_mono) (simp_all add: pos)
  also have "\<dots> \<le> 1 - 1 / 2 ^ 35" by simp
  finally have q: "10 / dd \<le> 1 - 1 / 2 ^ 35" .
  have rq: "representable (1 - 1 / 2 ^ 35)"
    using representable_div [of "2 ^ 35 - 1" 35] by (simp add: field_simps)
  have "0 \<le> 10 / dd" using pos by simp
  from dbl_between [OF rep_0 rq this q] obtain r where
    r: "dbl (10 / dd) = Fin r" "0 \<le> r" "r \<le> 1 - 1 / 2 ^ 35" by blast
  have "10 \<le> dd" using dd(2) by (smt (verit) divide_nonneg_nonneg zero_le_numeral zero_le_power)
  from normClip_between [OF d pos n _ this] r show ?thesis by simp
qed

lemma dbl_overflow: "dbl (2 ^ 1024) = PosInf"
proof -
  have x: "(2::real) ^ 1024 = pow2 1024" using pow2_nat [of 1024] by simp
  have "\<lfloor>log 2 (pow2 1024)\<rfloor> = 1024"
    using floor_log_eq_powr_iff [of "pow2 1024" 2 1024] pow2_less [of 1024 1025]
    by (simp add: pow2_def)
  then have ex: "expo (pow2 1024) = 972" by (simp add: expo_def)
  have "pow2 1024 / pow2 972 = pow2 52" using pow2_diff [of 1024 972] by simp
  also have "\<dots> = of_int (2 ^ 52)" using pow2_nat [of 52] by simp
  finally have "rne (pow2 1024 / pow2 972) = 2 ^ 52" by (simp only: rne_of_int)
  then have "of_int (rne (pow2 1024 / pow2 972)) * pow2 972 = pow2 52 * pow2 972"
    using pow2_nat [of 52] by simp
  also have "\<dots> = pow2 1024" using pow2_add [of 52 972] by simp
  finally have "round_pos (pow2 1024) = PosInf"
    by (simp add: round_pos_def ex Let_def)
  then show ?thesis unfolding x by (simp add: dbl_def)
qed

text \<open>
  Two more inputs: with \<open>a < b\<close> and an overflow of \<open>x - a\<close> and \<open>b - a\<close> the result is
  NaN, and with \<open>b < a\<close> the value at \<open>x \<le> a\<close> can be 1.
\<close>

lemma normClip_overflow:
  "normClip (Fin (2 ^ 1023)) (Fin (- (2 ^ 1023))) (Fin (2 ^ 1023)) = NaN"
proof -
  obtain e where e: "lit (1 / 10 ^ 9) = Fin e" using lit_eps by blast
  have "(2::real) ^ 1023 - - (2 ^ 1023) = 2 ^ 1024" by simp
  then have n: "jsub (Fin (2 ^ 1023)) (Fin (- (2 ^ 1023))) = PosInf"
    unfolding jsub_Fin using dbl_overflow by simp
  show ?thesis unfolding normClip_def n e by simp
qed

lemma normClip_reversed_bounds: "normClip (Fin 0) (Fin 1) (Fin 0) = Fin 1"
proof -
  obtain e where e: "lit (1 / 10 ^ 9) = Fin e" "1 / 2 ^ 30 \<le> e" "e \<le> 1 / 2 ^ 29"
    using lit_eps by blast
  have n: "jsub (Fin 0) (Fin 1) = Fin (- 1)"
    using dbl_neg [of 1] by (simp add: jsub_Fin)
  have rl: "representable (- 1)" using representable_of_int [of "- 1"] by simp
  have rh: "representable (- (1 / 2))" using representable_div [of "- 1" 1] by simp
  have "- 1 \<le> - 1 + e" using e(2)
    by (smt (verit) divide_nonneg_nonneg zero_le_numeral zero_le_power)
  moreover have "- 1 + e \<le> - (1 / 2)"
  proof -
    have "(1::real) / 2 ^ 29 \<le> 1 / 2" by simp
    with e(3) show ?thesis by linarith
  qed
  ultimately obtain dd where dd: "dbl (- 1 + e) = Fin dd" "- 1 \<le> dd" "dd \<le> - (1 / 2)"
    using dbl_between [OF rl rh, of "- 1 + e"] by auto
  have neg: "dd < 0" using dd(3) by simp
  have "1 \<le> - 1 / dd" using dd(2) neg by (simp add: le_divide_eq) (simp add: field_simps)
  from dbl_ge [OF rep_1 this] have "jle (Fin 1) (dbl (- 1 / dd))" .
  then have "Math_max (Fin 0) (Math_min (Fin 1) (dbl (- 1 / dd))) = Fin 1"
    by (cases "dbl (- 1 / dd)") auto
  then show ?thesis unfolding normClip_def n e(1) using dd(1) neg by simp
qed

section \<open>Properties of the retry loop\<close>

lemma overpass_loop_success:
  assumes "0 \<le> a" "a \<le> int k" "int k \<le> r"
    and "\<forall>i. nat a \<le> i \<and> i < k \<longrightarrow> isl (p i)"
    and "p k = Inr d"
  shows "overpass_loop p r a = (k + 1, Inr (Some d))"
  using assms
proof (induction p r a rule: overpass_loop.induct)
  case (1 p retries attempt)
  show ?case
  proof (cases "attempt = int k")
    case True
    with "1.prems" show ?thesis
      by (subst overpass_loop.simps) simp
  next
    case False
    with "1.prems" have lt: "attempt < int k" "attempt < retries" "attempt \<le> retries" by simp_all
    with "1.prems" have "isl (p (nat attempt))" by simp
    then obtain err where err: "p (nat attempt) = Inl err" by (cases "p (nat attempt)") auto
    have "overpass_loop p retries (attempt + 1) = (k + 1, Inr (Some d))"
    proof (rule "1.IH" [OF lt(3) err lt(2)])
      show "0 \<le> attempt + 1" using "1.prems" by simp
      show "attempt + 1 \<le> int k" using lt by simp
      show "int k \<le> retries" using "1.prems" by simp
      show "\<forall>i. nat (attempt + 1) \<le> i \<and> i < k \<longrightarrow> isl (p i)" using "1.prems" by auto
      show "p k = Inr d" using "1.prems" by simp
    qed
    then show ?thesis using lt err
      by (subst overpass_loop.simps) simp
  qed
qed

lemma overpass_loop_failure:
  assumes "0 \<le> a" "a \<le> r"
    and "\<forall>i. nat a \<le> i \<and> i \<le> nat r \<longrightarrow> isl (p i)"
  shows "overpass_loop p r a = (nat r + 1, Inl (FetchError (projl (p (nat r)))))"
  using assms
proof (induction p r a rule: overpass_loop.induct)
  case (1 p retries attempt)
  from "1.prems" have "isl (p (nat attempt))" by simp
  then obtain err where err: "p (nat attempt) = Inl err" by (cases "p (nat attempt)") auto
  show ?case
  proof (cases "attempt = retries")
    case True
    with "1.prems" err show ?thesis
      by (subst overpass_loop.simps) simp
  next
    case False
    with "1.prems" have lt: "attempt < retries" "attempt \<le> retries" by simp_all
    have "overpass_loop p retries (attempt + 1) =
            (nat retries + 1, Inl (FetchError (projl (p (nat retries)))))"
    proof (rule "1.IH" [OF lt(2) err lt(1)])
      show "0 \<le> attempt + 1" using "1.prems" by simp
      show "attempt + 1 \<le> retries" using lt by simp
      show "\<forall>i. nat (attempt + 1) \<le> i \<and> i \<le> nat retries \<longrightarrow> isl (p i)"
        using "1.prems" by auto
    qed
    then show ?thesis using lt err
      by (subst overpass_loop.simps) simp
  qed
qed

lemma overpass_loop_error:
  "snd (overpass_loop p r a) = Inl err \<Longrightarrow> \<exists>msg. err = FetchError msg"
proof (induction p r a rule: overpass_loop.induct)
  case (1 p retries attempt)
  show ?case
  proof (cases "attempt \<le> retries")
    case False
    with "1.prems" show ?thesis by (subst (asm) overpass_loop.simps) simp
  next
    case le: True
    show ?thesis
    proof (cases "p (nat attempt)")
      case (Inr d)
      with le "1.prems" show ?thesis by (subst (asm) overpass_loop.simps) simp
    next
      case (Inl x)
      show ?thesis
      proof (cases "attempt < retries")
        case True
        with le Inl "1.prems" have "snd (overpass_loop p retries (attempt + 1)) = Inl err"
          by (subst (asm) overpass_loop.simps) simp
        from "1.IH" [OF le Inl True this] show ?thesis .
      next
        case False
        with le Inl "1.prems" show ?thesis by (subst (asm) overpass_loop.simps) auto
      qed
    qed
  qed
qed

lemma overpass_loop_requests:
  "0 \<le> a \<Longrightarrow> a \<le> r \<Longrightarrow> 1 \<le> fst (overpass_loop p r a)"
proof (induction p r a rule: overpass_loop.induct)
  case (1 p retries attempt)
  show ?case
  proof (cases "p (nat attempt)")
    case (Inr d)
    with "1.prems" show ?thesis by (subst overpass_loop.simps) simp
  next
    case (Inl err)
    show ?thesis
    proof (cases "attempt < retries")
      case True
      with "1.prems" Inl have "1 \<le> fst (overpass_loop p retries (attempt + 1))"
        by (intro "1.IH") simp_all
      with True "1.prems" Inl show ?thesis by (subst overpass_loop.simps) simp
    next
      case False
      with "1.prems" Inl show ?thesis by (subst overpass_loop.simps) simp
    qed
  qed
qed

text \<open>With a negative retry count the loop body never runs: no request, no error.\<close>

lemma overpass_negative_retries:
  "r < 0 \<Longrightarrow> overpass e q r = (0, Inr None)"
  unfolding overpass_def by (subst overpass_loop.simps) simp

section \<open>Properties of the orchestrator\<close>

lemma Promise_all_Inr:
  "Promise_all order rs = Inr os \<Longrightarrow> (\<forall>i<length rs. rs ! i = Inr (os ! i)) \<and> length os = length rs"
proof -
  assume a: "Promise_all order rs = Inr os"
  then have none: "List.find (\<lambda>i. i < length rs \<and> isl (rs ! i)) (order @ [0..<length rs]) = None"
    and os: "os = map projr rs"
    by (auto simp: Promise_all_def split: option.splits)
  have "\<forall>i<length rs. \<not> isl (rs ! i)"
    using none by (auto simp: find_None_iff)
  then show ?thesis using os by (auto simp: sum.collapse(2))
qed

lemma Promise_all_Inl:
  "Promise_all order rs = Inl err \<Longrightarrow> \<exists>i<length rs. rs ! i = Inl err"
proof -
  assume a: "Promise_all order rs = Inl err"
  then obtain i where f: "List.find (\<lambda>i. i < length rs \<and> isl (rs ! i)) (order @ [0..<length rs]) = Some i"
    and e: "err = projl (rs ! i)"
    by (auto simp: Promise_all_def split: option.splits)
  from f have "i < length rs \<and> isl (rs ! i)"
    by (auto simp: find_Some_iff)
  with e show ?thesis by (auto simp: sum.collapse(1))
qed

lemma Promise_all_rejects:
  assumes "i < length rs" "isl (rs ! i)"
  shows "\<exists>err. Promise_all order rs = Inl err"
proof -
  have "i \<in> set (order @ [0..<length rs])" using assms by simp
  with assms have "List.find (\<lambda>i. i < length rs \<and> isl (rs ! i)) (order @ [0..<length rs]) \<noteq> None"
    unfolding find_None_iff by blast
  then show ?thesis by (auto simp: Promise_all_def split: option.splits)
qed

lemma analyzeBBox_invalid:
  "\<not> (\<exists>b. bbox = JArray b \<and> length b = 4) \<Longrightarrow> analyzeBBox e bbox opts = ([], Inl ValidationError)"
  by (cases bbox) (auto simp: analyzeBBox_def)

lemma analyzeBBox_valid:
  assumes "length b = 4"
  shows "analyzeBBox e (JArray b) opts =
    ([(Q_ROADS (Q_BASE e b), fst (overpass e (Q_ROADS (Q_BASE e b)) (overpassRetries opts))),
      (Q_BUILD (Q_BASE e b), fst (overpass e (Q_BUILD (Q_BASE e b)) (overpassRetries opts))),
      (Q_AMEN (Q_BASE e b), fst (overpass e (Q_AMEN (Q_BASE e b)) (overpassRetries opts)))],
     case Promise_all (settle_order e)
            [snd (overpass e (Q_ROADS (Q_BASE e b)) (overpassRetries opts)),
             snd (overpass e (Q_BUILD (Q_BASE e b)) (overpassRetries opts)),
             snd (overpass e (Q_AMEN (Q_BASE e b)) (overpassRetries opts))] of
       Inl err \<Rightarrow> Inl err
     | Inr os \<Rightarrow>
         ebind (compute_metrics e b (os ! 0) (os ! 1) (os ! 2)) (\<lambda>m.
         Inr \<lparr>result_metrics = m, analysis = generateGeminiAnalysis e m (model opts)\<rparr>))"
  using assms by (simp add: analyzeBBox_def Let_def)

lemma analyzeBBox_Inr:
  assumes "analyzeBBox e bbox opts = (reqs, Inr res)"
  shows "\<exists>b roadsOs buildOs amenOs.
           bbox = JArray b \<and> length b = 4
         \<and> snd (overpass e (Q_ROADS (Q_BASE e b)) (overpassRetries opts)) = Inr roadsOs
         \<and> snd (overpass e (Q_BUILD (Q_BASE e b)) (overpassRetries opts)) = Inr buildOs
         \<and> snd (overpass e (Q_AMEN (Q_BASE e b)) (overpassRetries opts)) = Inr amenOs
         \<and> compute_metrics e b roadsOs buildOs amenOs = Inr (result_metrics res)"
proof -
  have "\<exists>b. bbox = JArray b \<and> length b = 4"
    using assms analyzeBBox_invalid [of bbox e opts] by auto
  then obtain b where b: "bbox = JArray b" "length b = 4" by blast
  let ?rs = "[snd (overpass e (Q_ROADS (Q_BASE e b)) (overpassRetries opts)),
             snd (overpass e (Q_BUILD (Q_BASE e b)) (overpassRetries opts)),
             snd (overpass e (Q_AMEN (Q_BASE e b)) (overpassRetries opts))]"
  from assms b obtain os m where
    pa: "Promise_all (settle_order e) ?rs = Inr os"
    and cm: "compute_metrics e b (os ! 0) (os ! 1) (os ! 2) = Inr m"
    and res: "res = \<lparr>result_metrics = m, analysis = generateGeminiAnalysis e m (model opts)\<rparr>"
    by (auto simp: analyzeBBox_valid ebind_def split: sum.splits)
  from Promise_all_Inr [OF pa] have all: "\<And>i. i < length ?rs \<Longrightarrow> ?rs ! i = Inr (os ! i)"
    by blast
  have "?rs ! 0 = Inr (os ! 0)" "?rs ! 1 = Inr (os ! 1)" "?rs ! 2 = Inr (os ! 2)"
    by (rule all, simp)+
  then show ?thesis using b cm res by simp
qed

lemma rings_loop_error:
  "rings_loop e rs tot = Inl err \<Longrightarrow> \<exists>msg. err = TurfError msg"
  by (induction rs arbitrary: tot) (auto simp: turf_def split: sum.splits)

lemma lengthKm_loop_error:
  "lengthKm_loop e fs tot = Inl err \<Longrightarrow> \<exists>msg. err = TurfError msg"
proof (induction fs arbitrary: tot)
  case Nil
  then show ?case by simp
next
  case (Cons f fs)
  then show ?case
    by (auto simp: turf_def split: option.splits geometry.splits sum.splits
        dest: rings_loop_error)
qed

lemma lengthKm_error:
  "lengthKm e fc = Inl err \<Longrightarrow> \<exists>msg. err = TurfError msg"
  by (auto simp: lengthKm_def split: option.splits if_splits dest: lengthKm_loop_error)

lemma amenity_is_error: "amenity_is kind f = Inl err \<Longrightarrow> err = TypeError"
  by (auto simp: amenity_is_def Let_def split: if_splits option.splits pval.splits)

lemma filter_amenity_error: "filter_amenity kind fs = Inl err \<Longrightarrow> err = TypeError"
  by (induction fs arbitrary: err) (auto split: sum.splits dest: amenity_is_error)

lemma osmToGeoJSON_error: "osmToGeoJSON j ts = Inl err \<Longrightarrow> err = TypeError"
  by (auto simp: osmToGeoJSON_def split: option.splits)

lemma compute_metrics_error:
  assumes "compute_metrics e b ro bo ao = Inl err"
  shows "err \<noteq> ValidationError"
proof
  assume v: "err = ValidationError"
  from assms show False unfolding v compute_metrics_def ebind_def Let_def
    by (auto simp: turf_def split: sum.splits
        dest: osmToGeoJSON_error lengthKm_error filter_amenity_error)
qed

lemma Promise_all_Inl_set:
  "Promise_all order rs = Inl err \<Longrightarrow> Inl err \<in> set rs"
  using Promise_all_Inl [of order rs err] by (metis nth_mem)

lemma analyzeBBox_valid_error:
  assumes "length b = 4"
  shows "snd (analyzeBBox e (JArray b) opts) \<noteq> Inl ValidationError"
proof
  assume a: "snd (analyzeBBox e (JArray b) opts) = Inl ValidationError"
  let ?rs = "[snd (overpass e (Q_ROADS (Q_BASE e b)) (overpassRetries opts)),
             snd (overpass e (Q_BUILD (Q_BASE e b)) (overpassRetries opts)),
             snd (overpass e (Q_AMEN (Q_BASE e b)) (overpassRetries opts))]"
  show False
  proof (cases "Promise_all (settle_order e) ?rs")
    case (Inl err)
    with a assms have v: "err = ValidationError" by (simp add: analyzeBBox_valid)
    from Promise_all_Inl_set [OF Inl]
    have "\<exists>q. snd (overpass e q (overpassRetries opts)) = Inl err"
      by auto
    then obtain q where "snd (overpass_loop (post e q) (overpassRetries opts) 0) = Inl err"
      by (auto simp: overpass_def)
    from overpass_loop_error [OF this] v show False by auto
  next
    case (Inr os)
    with a assms have "ebind (compute_metrics e b (os ! 0) (os ! 1) (os ! 2)) (\<lambda>m.
         Inr \<lparr>result_metrics = m, analysis = generateGeminiAnalysis e m (model opts)\<rparr>)
        = Inl ValidationError"
      by (simp add: analyzeBBox_valid)
    then have "compute_metrics e b (os ! 0) (os ! 1) (os ! 2) = Inl ValidationError"
      by (auto simp: ebind_def split: sum.splits)
    from compute_metrics_error [OF this] show False by simp
  qed
qed

lemma analyzeBBox_requests:
  assumes "length b = 4" "0 \<le> overpassRetries opts"
  shows "length (fst (analyzeBBox e (JArray b) opts)) = 3
       \<and> (\<forall>(q, n) \<in> set (fst (analyzeBBox e (JArray b) opts)). 1 \<le> n)"
  using assms overpass_loop_requests [of 0 "overpassRetries opts"]
  by (simp add: analyzeBBox_valid overpass_def)

section \<open>Properties of the density heuristic\<close>

lemma line_loop_eq: "line_loop c pts = pts @ map spec_cell c"
  by (induction c pts rule: line_loop.induct) (simp_all add: spec_cell_def)

lemma lines_loop_eq: "lines_loop c pts = pts @ map spec_cell (concat c)"
  by (induction c arbitrary: pts) (simp_all add: line_loop_eq)

lemma roads_loop_eq: "roads_loop fs pts = pts @ map spec_cell (spec_vertices fs)"
proof (induction fs arbitrary: pts)
  case Nil
  then show ?case by (simp add: spec_vertices_def)
next
  case (Cons f fs)
  then show ?case
    by (simp add: spec_vertices_def line_loop_eq lines_loop_eq
        split: option.splits geometry.splits)
qed

lemma count_key_distinct:
  "distinct (map fst acc) \<Longrightarrow> distinct (map fst (count_key acc k))"
  by (simp add: count_key_def distinct_update)

lemma count_key_map_of:
  "map_of (count_key acc k) =
     (map_of acc)(k \<mapsto> (case map_of acc k of None \<Rightarrow> 0 | Some c \<Rightarrow> c) + 1)"
  by (simp add: count_key_def update_conv')

lemma foldl_count_key_distinct:
  "distinct (map fst acc) \<Longrightarrow> distinct (map fst (foldl count_key acc pts))"
  by (induction pts arbitrary: acc) (simp_all add: count_key_distinct)

lemma foldl_count_key_map_of:
  "map_of (foldl count_key acc pts) k =
     (if k \<in> set pts \<or> k \<in> dom (map_of acc)
      then Some (count_list pts k + (case map_of acc k of None \<Rightarrow> 0 | Some c \<Rightarrow> c))
      else None)"
proof (induction pts arbitrary: acc)
  case Nil
  then show ?case by (auto split: option.splits)
next
  case (Cons p pts)
  show ?case
    by (simp add: Cons.IH count_key_map_of dom_def split: option.splits)
qed

lemma counts_from_empty:
  "map_of (foldl count_key [] pts) k =
     (if k \<in> set pts then Some (count_list pts k) else None)"
  by (simp add: foldl_count_key_map_of)

lemma filter_values_card:
  "distinct (map fst al) \<Longrightarrow>
   length (filter P (map snd al)) = card {k. \<exists>v. map_of al k = Some v \<and> P v}"
proof (induction al)
  case Nil
  then show ?case by simp
next
  case (Cons kv al)
  obtain k v where kv: "kv = (k, v)" by (cases kv)
  from Cons.prems kv have k: "k \<notin> fst ` set al" and d: "distinct (map fst al)" by auto
  let ?S = "{k'. \<exists>v'. map_of al k' = Some v' \<and> P v'}"
  have fin: "finite ?S"
    by (rule finite_subset [of _ "dom (map_of al)"]) (auto simp: finite_dom_map_of)
  have notin: "k \<notin> ?S" using k by (auto dest: map_of_SomeD intro: rev_image_eqI)
  have eq: "{k'. \<exists>v'. map_of (kv # al) k' = Some v' \<and> P v'} = (if P v then insert k ?S else ?S)"
    using notin by (auto simp: kv)
  have l: "length (filter P (map snd (kv # al))) =
             (if P v then 1 else 0) + length (filter P (map snd al))"
    by (simp add: kv)
  have c: "card (if P v then insert k ?S else ?S) = (if P v then 1 else 0) + card ?S"
    using fin notin by simp
  show ?case
    unfolding eq l c using Cons.IH [OF d] by simp
qed

lemma intersections_count:
  "length (filter (\<lambda>v. 3 \<le> v) (map snd (foldl count_key [] pts)))
     = card {c \<in> set pts. 3 \<le> count_list pts c}"
proof -
  have d: "distinct (map fst (foldl count_key [] pts))"
    by (rule foldl_count_key_distinct) simp
  have "{k. \<exists>v. map_of (foldl count_key [] pts) k = Some v \<and> 3 \<le> v}
      = {c \<in> set pts. 3 \<le> count_list pts c}"
    by (auto simp: counts_from_empty split: if_splits)
  with filter_values_card [OF d, of "\<lambda>v. 3 \<le> v"] show ?thesis by simp
qed

lemma Math_round_nearest:
  "\<exists>k. Math_round (Fin p) = Fin (of_int k) \<and> \<bar>of_int k - p\<bar> \<le> 1 / 2
       \<and> (\<forall>j. \<bar>of_int j - p\<bar> \<le> 1 / 2 \<longrightarrow> j \<le> k)"
proof (intro exI conjI allI impI)
  show "Math_round (Fin p) = Fin (of_int \<lfloor>p + 1 / 2\<rfloor>)" by simp
  show "\<bar>of_int \<lfloor>p + 1 / 2\<rfloor> - p\<bar> \<le> 1 / 2" by linarith
  fix j :: int
  assume "\<bar>of_int j - p\<bar> \<le> 1 / 2"
  then have "of_int j \<le> p + 1 / 2" by linarith
  then show "j \<le> \<lfloor>p + 1 / 2\<rfloor>" by (simp add: le_floor_iff)
qed

section \<open>Properties of the converter and of the amenity filter\<close>

lemma osm_loop_eq:
  "osm_loop ts els acc = acc @ List.map_filter (convert ts) els"
  by (induction els arbitrary: acc) (auto simp: List.map_filter_simps split: option.splits)

lemma osmToGeoJSON_eq:
  "osmToGeoJSON (Some j) ts =
     Inr (List.map_filter (convert ts) (case elements j of None \<Rightarrow> [] | Some els \<Rightarrow> els))"
  by (simp add: osmToGeoJSON_def osm_loop_eq)

lemma convert_properties:
  "convert ts el = Some f \<Longrightarrow> f_properties f = make_props el"
  by (auto simp: convert_def Let_def split: if_splits)

lemma convert_building:
  assumes "el_type el = ''way''" "''way'' \<in> set ts" "el_geometry el = Some g"
    and "truthy (make_props el ''building'')"
  shows "convert ts el =
     Some \<lparr>f_geometry = Some (Polygon [map Some (map (\<lambda>n. (g_lon n, g_lat n)) g) @
                                        [first (map (\<lambda>n. (g_lon n, g_lat n)) g)]]),
           f_properties = make_props el\<rparr>"
  using assms by (simp add: convert_def Let_def)

lemma way_fields:
  "el_type (way i t g) = ''way''"
  "el_tags (way i t g) = Some t"
  "el_geometry (way i t g) = Some (map (\<lambda>(la, lo). \<lparr>g_lat = la, g_lon = lo\<rparr>) g)"
  by (simp_all add: way_def)

lemma first_eq: "first xs = (if xs = [] then None else Some (hd xs))"
  by (cases xs) simp_all

lemma amenity_is_Inr:
  assumes "kind \<noteq> []" "amenity_is kind f = Inr keep"
  shows "keep = (\<exists>s. f_properties f ''amenity'' = Some (PStr s) \<and> toLowerCase s = kind)"
proof (cases "f_properties f ''amenity''")
  case None
  with assms show ?thesis by (auto simp: amenity_is_def toLowerCase_def)
next
  case (Some v)
  show ?thesis
  proof (cases v)
    case (PNum n)
    with Some assms show ?thesis
      by (auto simp: amenity_is_def toLowerCase_def split: if_splits)
  next
    case (PStr s)
    with Some assms show ?thesis
      by (cases "s = []") (auto simp: amenity_is_def toLowerCase_def)
  qed
qed

lemma filter_amenity_Inr:
  assumes "kind \<noteq> []"
  shows "filter_amenity kind fs = Inr r \<Longrightarrow>
     r = filter (\<lambda>f. \<exists>s. f_properties f ''amenity'' = Some (PStr s) \<and> toLowerCase s = kind) fs"
proof (induction fs arbitrary: r)
  case Nil
  then show ?case by simp
next
  case (Cons f fs)
  from Cons.prems obtain keep rest where
    k: "amenity_is kind f = Inr keep" and
    rest: "filter_amenity kind fs = Inr rest" and
    r: "r = (if keep then f # rest else rest)"
    by (auto split: sum.splits)
  from amenity_is_Inr [OF assms k] Cons.IH [OF rest] r show ?case by simp
qed

lemma compute_metrics_amenities:
  assumes "compute_metrics e b ro bo ao = Inr m"
  shows "\<exists>amenGeo a. osmToGeoJSON ao [''node''] = Inr amenGeo \<and> turf_area e b = Inr a
    \<and> hospitals_per_km2 m = toFixed 4 (pointDensityPerKm2
         (Some (filter (\<lambda>f. \<exists>s. f_properties f ''amenity'' = Some (PStr s)
                                \<and> toLowerCase s = ''hospital'') amenGeo))
         (jdiv a (Fin 1000000)))
    \<and> schools_per_km2 m = toFixed 4 (pointDensityPerKm2
         (Some (filter (\<lambda>f. \<exists>s. f_properties f ''amenity'' = Some (PStr s)
                                \<and> toLowerCase s = ''school'') amenGeo))
         (jdiv a (Fin 1000000)))"
proof -
  from assms obtain amenGeo a hospitals schools where
    ag: "osmToGeoJSON ao [''node''] = Inr amenGeo" and
    ta: "turf_area e b = Inr a" and
    h: "filter_amenity ''hospital'' amenGeo = Inr hospitals" and
    s: "filter_amenity ''school'' amenGeo = Inr schools" and
    hm: "hospitals_per_km2 m = toFixed 4 (pointDensityPerKm2 (Some hospitals) (jdiv a (Fin 1000000)))" and
    sm: "schools_per_km2 m = toFixed 4 (pointDensityPerKm2 (Some schools) (jdiv a (Fin 1000000)))"
    by (auto simp: compute_metrics_def ebind_def turf_def Let_def split: sum.splits)
  have "hospitals = filter (\<lambda>f. \<exists>s. f_properties f ''amenity'' = Some (PStr s)
                                \<and> toLowerCase s = ''hospital'') amenGeo"
    by (rule filter_amenity_Inr [OF _ h]) simp
  moreover have "schools = filter (\<lambda>f. \<exists>s. f_properties f ''amenity'' = Some (PStr s)
                                \<and> toLowerCase s = ''school'') amenGeo"
    by (rule filter_amenity_Inr [OF _ s]) simp
  ultimately show ?thesis using ag ta hm sm by simp
qed

lemma other_kinds:
  "''clinic'' \<noteq> ''hospital''" "''clinic'' \<noteq> ''school''"
  "''university'' \<noteq> ''hospital''" "''university'' \<noteq> ''school''"
  by simp_all

section \<open>The functions on the sample data\<close>

text \<open>The numbers of the sample are doubles, and so are the results computed from them.\<close>

lemma sample_doubles:
  "dbl (1 / 2) = Fin (1 / 2)"
  "dbl (3 / 2) = Fin (3 / 2)"
  "dbl (625 / 64) = Fin (625 / 64)"
  "dbl (625 / 32) = Fin (625 / 32)"
proof -
  show "dbl (1 / 2) = Fin (1 / 2)"
    using dbl_exact [OF representable_div [of 1 1]] by simp
  show "dbl (3 / 2) = Fin (3 / 2)"
    using dbl_exact [OF representable_div [of 3 1]] by simp
  show "dbl (625 / 64) = Fin (625 / 64)"
    using dbl_exact [OF representable_div [of 625 6]] by simp
  show "dbl (625 / 32) = Fin (625 / 32)"
    using dbl_exact [OF representable_div [of 625 5]] by simp
qed

lemma sample_Q_BASE: "Q_BASE sample_env sample_bbox = sample_query"
  by (simp add: Q_BASE_def sample_env_def sample_bbox_def sample_toStr_def sample_query_def)

lemma sample_overpass:
  "overpass sample_env q 1 = (1, Inr (Some (sample_answer q)))"
  using overpass_loop_success [of 0 0 1 "post sample_env q" "sample_answer q"]
  by (simp add: sample_env_def overpass_def)

lemma sample_answers:
  "sample_answer (Q_ROADS sample_query) = sample_roads"
  "sample_answer (Q_BUILD sample_query) = sample_buildings"
  "sample_answer (Q_AMEN sample_query) = sample_amenities"
  by (simp_all add: sample_answer_def Q_ROADS_def Q_BUILD_def Q_AMEN_def sample_query_def)

lemma make_props_apply:
  "make_props el k =
     (case tags_or_empty el k of
        Some v \<Rightarrow> Some (PStr v)
      | None \<Rightarrow> if k = ''id'' then Some (PNum (el_id el)) else None)"
  by (simp add: make_props_def map_add_def split: option.splits)

lemma convert_way:
  "convert [''way''] (way i t g) =
     Some \<lparr>f_geometry =
             Some (if truthy (make_props (way i t g) ''building'')
                   then Polygon [map Some (map (\<lambda>(la, lo). (lo, la)) g) @
                                 [first (map (\<lambda>(la, lo). (lo, la)) g)]]
                   else LineString (map (\<lambda>(la, lo). (lo, la)) g)),
           f_properties = make_props (way i t g)\<rparr>"
  by (simp add: convert_def way_def Let_def comp_def case_prod_unfold)

lemma convert_node:
  "convert [''node''] (node i t la lo) =
     Some \<lparr>f_geometry = Some (Point (lo, la)), f_properties = make_props (node i t la lo)\<rparr>"
  by (simp add: convert_def node_def Let_def)

lemma tags_way [simp]: "tags_or_empty (way i t g) = t"
  by (simp add: tags_or_empty_def way_def)

lemma tags_node [simp]: "tags_or_empty (node i t la lo) = t"
  by (simp add: tags_or_empty_def node_def)

lemma sample_roadsGeo:
  "osmToGeoJSON (Some sample_roads) [''way''] = Inr
    [\<lparr>f_geometry = Some (LineString [(0, 0), (1 / 1024, 0)]),
      f_properties = make_props (way 1 [''highway'' \<mapsto> ''residential''] [(0, 0), (0, 1 / 1024)])\<rparr>,
     \<lparr>f_geometry = Some (LineString [(1 / 1024, 0), (1 / 512, 0)]),
      f_properties = make_props (way 2 [''highway'' \<mapsto> ''residential''] [(0, 1 / 1024), (0, 1 / 512)])\<rparr>,
     \<lparr>f_geometry = Some (LineString [(1 / 1024, 0), (1 / 1024, 1 / 1024)]),
      f_properties = make_props (way 3 [''highway'' \<mapsto> ''service''] [(0, 1 / 1024), (1 / 1024, 1 / 1024)])\<rparr>]"
  by (simp add: osmToGeoJSON_def sample_roads_def convert_way make_props_apply)

lemma sample_buildGeo:
  "osmToGeoJSON (Some sample_buildings) [''way''] = Inr
    [\<lparr>f_geometry = Some (Polygon [[Some (0, 0), Some (1 / 1024, 0), Some (1 / 1024, 1 / 1024), Some (0, 0)]]),
      f_properties = make_props (way 4 [''building'' \<mapsto> ''yes''] [(0, 0), (0, 1 / 1024), (1 / 1024, 1 / 1024)])\<rparr>]"
  by (simp add: osmToGeoJSON_def sample_buildings_def convert_way make_props_apply)

lemma sample_amenGeo:
  "osmToGeoJSON (Some sample_amenities) [''node''] = Inr
    [\<lparr>f_geometry = Some (Point (0, 0)),
      f_properties = make_props (node 5 [''amenity'' \<mapsto> ''Hospital''] 0 0)\<rparr>,
     \<lparr>f_geometry = Some (Point (1 / 1024, 0)),
      f_properties = make_props (node 6 [''amenity'' \<mapsto> ''clinic''] 0 (1 / 1024))\<rparr>,
     \<lparr>f_geometry = Some (Point (0, 1 / 1024)),
      f_properties = make_props (node 7 [''highway'' \<mapsto> ''bus_stop''] (1 / 1024) 0)\<rparr>]"
  by (simp add: osmToGeoJSON_def sample_amenities_def convert_node)

lemma lower_Hospital: "toLowerCase ''Hospital'' = ''hospital''"
  by (simp add: toLowerCase_def lower_char_def char_of_def bit_iff_odd)

lemma lower_clinic: "toLowerCase ''clinic'' = ''clinic''"
  by (simp add: toLowerCase_def lower_char_def)

lemma sample_intersections:
  "intersectionDensityPerKm2 (Some
    [\<lparr>f_geometry = Some (LineString [(0, 0), (1 / 1024, 0)]), f_properties = p1\<rparr>,
     \<lparr>f_geometry = Some (LineString [(1 / 1024, 0), (1 / 512, 0)]), f_properties = p2\<rparr>,
     \<lparr>f_geometry = Some (LineString [(1 / 1024, 0), (1 / 1024, 1 / 1024)]), f_properties = p3\<rparr>]) (Fin 2)
   = Fin (1 / 2)"
  by (simp add: intersectionDensityPerKm2_def count_key_def sample_doubles)

lemma amenity_is_apply:
  "amenity_is kind \<lparr>f_geometry = g, f_properties = make_props (node i t la lo)\<rparr> =
     (case t ''amenity'' of
        None \<Rightarrow> Inr ([] = kind)
      | Some s \<Rightarrow> Inr (toLowerCase (if s = [] then [] else s) = kind))"
  by (simp add: amenity_is_def make_props_apply Let_def toLowerCase_def split: option.splits)

lemma sample_hospitals:
  "filter_amenity ''hospital''
    [\<lparr>f_geometry = Some (Point (0, 0)),
      f_properties = make_props (node 5 [''amenity'' \<mapsto> ''Hospital''] 0 0)\<rparr>,
     \<lparr>f_geometry = Some (Point (1 / 1024, 0)),
      f_properties = make_props (node 6 [''amenity'' \<mapsto> ''clinic''] 0 (1 / 1024))\<rparr>,
     \<lparr>f_geometry = Some (Point (0, 1 / 1024)),
      f_properties = make_props (node 7 [''highway'' \<mapsto> ''bus_stop''] (1 / 1024) 0)\<rparr>]
   = Inr [\<lparr>f_geometry = Some (Point (0, 0)),
      f_properties = make_props (node 5 [''amenity'' \<mapsto> ''Hospital''] 0 0)\<rparr>]"
  by (simp add: amenity_is_apply lower_Hospital lower_clinic)

lemma sample_schools:
  "filter_amenity ''school''
    [\<lparr>f_geometry = Some (Point (0, 0)),
      f_properties = make_props (node 5 [''amenity'' \<mapsto> ''Hospital''] 0 0)\<rparr>,
     \<lparr>f_geometry = Some (Point (1 / 1024, 0)),
      f_properties = make_props (node 6 [''amenity'' \<mapsto> ''clinic''] 0 (1 / 1024))\<rparr>,
     \<lparr>f_geometry = Some (Point (0, 1 / 1024)),
      f_properties = make_props (node 7 [''highway'' \<mapsto> ''bus_stop''] (1 / 1024) 0)\<rparr>]
   = Inr []"
  by (simp add: amenity_is_apply lower_Hospital lower_clinic)

lemma sample_metrics:
  "compute_metrics sample_env sample_bbox (Some sample_roads) (Some sample_buildings)
     (Some sample_amenities) =
   Inr \<lparr>area_km2 = Fin 2, roads_km = Fin 3, roads_km_per_km2 = Fin (3 / 2),
        buildings_count = 1, buildings_per_km2 = Fin (1 / 2),
        intersections_per_km2 = Fin (1 / 2), hospitals_per_km2 = Fin (1 / 2),
        schools_per_km2 = Fin 0,
        SocioEconScore = toFixed 1 (socio_score (infra_score (Fin (3 / 2)) (Fin (1 / 2)))
                                      (access_score (Fin (1 / 2)) (Fin 0)))\<rparr>"
  by (simp add: compute_metrics_def sample_roadsGeo sample_buildGeo sample_amenGeo ebind_def
      sample_hospitals sample_schools Let_def sample_env_def turf_def lengthKm_def
      sample_intersections pointDensityPerKm2_def sample_doubles
      del: filter_amenity.simps)

lemma sample_run:
  "analyzeBBox sample_env (JArray sample_bbox) default_options =
    ([(Q_ROADS sample_query, 1), (Q_BUILD sample_query, 1), (Q_AMEN sample_query, 1)],
     Inr \<lparr>result_metrics =
            \<lparr>area_km2 = Fin 2, roads_km = Fin 3, roads_km_per_km2 = Fin (3 / 2),
             buildings_count = 1, buildings_per_km2 = Fin (1 / 2),
             intersections_per_km2 = Fin (1 / 2), hospitals_per_km2 = Fin (1 / 2),
             schools_per_km2 = Fin 0,
             SocioEconScore = toFixed 1 (socio_score (infra_score (Fin (3 / 2)) (Fin (1 / 2)))
                                           (access_score (Fin (1 / 2)) (Fin 0)))\<rparr>,
          analysis = ''report''\<rparr>)"
proof -
  have len: "length sample_bbox = 4" by (simp add: sample_bbox_def)
  have pa: "Promise_all [0, 1, 2] [Inr (Some sample_roads), Inr (Some sample_buildings), Inr (Some sample_amenities)]
     = Inr [Some sample_roads, Some sample_buildings, Some sample_amenities]"
    by (simp add: Promise_all_def upt_rec)
  have so: "settle_order sample_env = [0, 1, 2]" "areaReport sample_env = ''report''"
    by (simp_all add: sample_env_def)
  show ?thesis
    by (simp add: analyzeBBox_valid [OF len] sample_Q_BASE default_options_def sample_overpass
        sample_answers pa [unfolded One_nat_def] so sample_metrics ebind_def generateGeminiAnalysis_def)
qed

lemma offline_overpass:
  "overpass offline_env q 1 = (2, Inl (FetchError ''Network Error''))"
  using overpass_loop_failure [of 0 1 "post offline_env q"]
  by (simp add: offline_env_def overpass_def)

lemma flaky_overpass:
  "overpass flaky_env q 1 = (2, Inr (Some (sample_answer q)))"
  using overpass_loop_success [of 0 1 1 "post flaky_env q" "sample_answer q"]
  by (simp add: flaky_env_def overpass_def)

lemma amenities_down_overpass:
  "overpass amenities_down_env (Q_ROADS sample_query) 1 = (1, Inr (Some sample_roads))"
  "overpass amenities_down_env (Q_BUILD sample_query) 1 = (1, Inr (Some sample_buildings))"
  "overpass amenities_down_env (Q_AMEN sample_query) 1 = (2, Inl (FetchError ''Network Error''))"
proof -
  have ne: "Q_ROADS sample_query \<noteq> Q_AMEN sample_query" "Q_BUILD sample_query \<noteq> Q_AMEN sample_query"
    by (simp_all add: Q_ROADS_def Q_BUILD_def Q_AMEN_def sample_query_def)
  show "overpass amenities_down_env (Q_ROADS sample_query) 1 = (1, Inr (Some sample_roads))"
    using overpass_loop_success [of 0 0 1 "post amenities_down_env (Q_ROADS sample_query)" sample_roads] ne
    by (simp add: amenities_down_env_def overpass_def sample_answers)
  show "overpass amenities_down_env (Q_BUILD sample_query) 1 = (1, Inr (Some sample_buildings))"
    using overpass_loop_success [of 0 0 1 "post amenities_down_env (Q_BUILD sample_query)" sample_buildings] ne
    by (simp add: amenities_down_env_def overpass_def sample_answers)
  show "overpass amenities_down_env (Q_AMEN sample_query) 1 = (2, Inl (FetchError ''Network Error''))"
    using overpass_loop_failure [of 0 1 "post amenities_down_env (Q_AMEN sample_query)"]
    by (simp add: amenities_down_env_def overpass_def)
qed

lemma env_fields:
  "settle_order offline_env = [0, 1, 2]" "settle_order amenities_down_env = [0, 1, 2]"
  "toStr offline_env = sample_toStr" "toStr amenities_down_env = sample_toStr"
  by (simp_all add: offline_env_def amenities_down_env_def sample_env_def)

lemma amenities_down_Q_BASE: "Q_BASE amenities_down_env sample_bbox = sample_query"
  by (simp add: Q_BASE_def env_fields sample_bbox_def sample_toStr_def sample_query_def)

lemma offline_run:
  "analyzeBBox offline_env (JArray [JString ''a'', JString ''b'', JString ''c'', JString ''d''])
     default_options =
   ([(Q_ROADS ''(b,a,d,c)'', 2), (Q_BUILD ''(b,a,d,c)'', 2), (Q_AMEN ''(b,a,d,c)'', 2)],
    Inl (FetchError ''Network Error''))"
proof -
  have q: "Q_BASE offline_env [JString ''a'', JString ''b'', JString ''c'', JString ''d''] = ''(b,a,d,c)''"
    by (simp add: Q_BASE_def env_fields sample_toStr_def)
  have pa: "Promise_all [0, 1, 2] [Inl (FetchError ''Network Error''), Inl (FetchError ''Network Error''),
        Inl (FetchError ''Network Error'') :: error + osm_json option] = Inl (FetchError ''Network Error'')"
    by (simp add: Promise_all_def)
  show ?thesis
    by (simp add: analyzeBBox_valid q default_options_def offline_overpass env_fields
        pa [unfolded One_nat_def])
qed

lemma amenities_down_run:
  "analyzeBBox amenities_down_env (JArray sample_bbox) default_options =
   ([(Q_ROADS sample_query, 1), (Q_BUILD sample_query, 1), (Q_AMEN sample_query, 2)],
    Inl (FetchError ''Network Error''))"
proof -
  have len: "length sample_bbox = 4" by (simp add: sample_bbox_def)
  have pa: "Promise_all [0, 1, 2] [Inr (Some sample_roads), Inr (Some sample_buildings),
        Inl (FetchError ''Network Error'')] = Inl (FetchError ''Network Error'')"
    by (simp add: Promise_all_def upt_rec)
  show ?thesis
    by (simp add: analyzeBBox_valid [OF len] amenities_down_Q_BASE default_options_def
        amenities_down_overpass env_fields pa [unfolded One_nat_def])
qed

text \<open>The world whose area library answers NaN, at a bounding box of four strings.\<close>

lemma nan_area_overpass:
  "overpass nan_area_env q 1 = (1, Inr (Some (sample_answer q)))"
  using overpass_loop_success [of 0 0 1 "post nan_area_env q" "sample_answer q"]
  by (simp add: nan_area_env_def sample_env_def overpass_def)

lemma strings_answers:
  "sample_answer (Q_ROADS ''(b,a,d,c)'') = sample_amenities"
  "sample_answer (Q_BUILD ''(b,a,d,c)'') = sample_amenities"
  "sample_answer (Q_AMEN ''(b,a,d,c)'') = sample_amenities"
  by (simp_all add: sample_answer_def Q_ROADS_def Q_BUILD_def Q_AMEN_def sample_query_def)

lemma nodes_as_ways: "osmToGeoJSON (Some sample_amenities) [''way''] = Inr []"
  by (simp add: osmToGeoJSON_def sample_amenities_def convert_def node_def)

lemma nan_area_metrics:
  "compute_metrics nan_area_env [JString ''a'', JString ''b'', JString ''c'', JString ''d'']
     (Some sample_amenities) (Some sample_amenities) (Some sample_amenities) =
   Inr \<lparr>area_km2 = NaN, roads_km = Fin 0, roads_km_per_km2 = NaN,
        buildings_count = 0, buildings_per_km2 = NaN,
        intersections_per_km2 = Fin 0, hospitals_per_km2 = NaN,
        schools_per_km2 = NaN, SocioEconScore = NaN\<rparr>"
proof -
  have i: "infra_score NaN (Fin 0) = NaN"
    by (simp add: infra_score_def normClip_def jsub_def)
  show ?thesis
    by (simp add: compute_metrics_def nodes_as_ways sample_amenGeo ebind_def
        sample_hospitals sample_schools Let_def nan_area_env_def sample_env_def turf_def
        lengthKm_def intersectionDensityPerKm2_def pointDensityPerKm2_def i socio_score_NaN
        del: filter_amenity.simps)
qed

lemma nan_area_run:
  "analyzeBBox nan_area_env (JArray [JString ''a'', JString ''b'', JString ''c'', JString ''d''])
     default_options =
   ([(Q_ROADS ''(b,a,d,c)'', 1), (Q_BUILD ''(b,a,d,c)'', 1), (Q_AMEN ''(b,a,d,c)'', 1)],
    Inr \<lparr>result_metrics =
           \<lparr>area_km2 = NaN, roads_km = Fin 0, roads_km_per_km2 = NaN,
            buildings_count = 0, buildings_per_km2 = NaN,
            intersections_per_km2 = Fin 0, hospitals_per_km2 = NaN,
            schools_per_km2 = NaN, SocioEconScore = NaN\<rparr>,
         analysis = ''report''\<rparr>)"
proof -
  have q: "Q_BASE nan_area_env [JString ''a'', JString ''b'', JString ''c'', JString ''d''] = ''(b,a,d,c)''"
    by (simp add: Q_BASE_def nan_area_env_def sample_env_def sample_toStr_def)
  have pa: "Promise_all [0, 1, 2] [Inr (Some sample_amenities), Inr (Some sample_amenities),
        Inr (Some sample_amenities)]
     = Inr [Some sample_amenities, Some sample_amenities, Some sample_amenities]"
    by (simp add: Promise_all_def upt_rec)
  have so: "settle_order nan_area_env = [0, 1, 2]" "areaReport nan_area_env = ''report''"
    by (simp_all add: nan_area_env_def sample_env_def)
  show ?thesis
    by (simp add: analyzeBBox_valid q default_options_def nan_area_overpass
        strings_answers pa [unfolded One_nat_def] so nan_area_metrics ebind_def
        generateGeminiAnalysis_def)
qed

text \<open>In the world of the sample the area and the length of the roads are finite.\<close>

lemma sample_area_finite:
  "\<forall>a. turf_area sample_env sample_bbox = Inr a \<longrightarrow> is_fin a"
  by (auto simp: sample_env_def)

lemma sample_length_finite:
  "\<forall>roadsOs roadsGeo l.
      snd (overpass sample_env (Q_ROADS (Q_BASE sample_env sample_bbox))
             (overpassRetries default_options)) = Inr roadsOs \<longrightarrow>
      osmToGeoJSON roadsOs [''way''] = Inr roadsGeo \<longrightarrow>
      lengthKm sample_env (Some roadsGeo) = Inr l \<longrightarrow> is_fin l"
proof (intro allI impI)
  fix roadsOs roadsGeo l
  assume ro: "snd (overpass sample_env (Q_ROADS (Q_BASE sample_env sample_bbox))
             (overpassRetries default_options)) = Inr roadsOs"
    and g: "osmToGeoJSON roadsOs [''way''] = Inr roadsGeo"
    and l: "lengthKm sample_env (Some roadsGeo) = Inr l"
  from ro have "roadsOs = Some sample_roads"
    by (simp add: sample_Q_BASE default_options_def sample_overpass sample_answers)
  with g have "roadsGeo = projr (osmToGeoJSON (Some sample_roads) [''way''])" by simp
  with l have "l = Fin 3"
    by (simp add: sample_roadsGeo lengthKm_def sample_env_def turf_def ebind_def)
  then show "is_fin l" by simp
qed
section \<open>The claims\<close>

text \<open>
  Claim C2, as stated, at the bounds of the road-density term: \<open>x = b = 10\<close> and
  \<open>a = 0\<close>. The claim gives 1; the code divides 10 by the double \<open>10 + 1e-9\<close>, and the
  quotient is less than 1.
\<close>

theorem normClip_at_upper_bound_counterexample:
  "(10::real) \<le> 10 \<and> (\<exists>r. normClip (Fin 10) (Fin 0) (Fin 10) = Fin r \<and> r < 1)"
proof -
  obtain r where r: "normClip (Fin 10) (Fin 0) (Fin 10) = Fin r" "r \<le> 1 - 1 / 2 ^ 35"
    using normClip_at_10 by blast
  have "(1::real) - 1 / 2 ^ 35 < 1" by simp
  with r have "normClip (Fin 10) (Fin 0) (Fin 10) = Fin r \<and> r < 1" by simp
  then show ?thesis by blast
qed

text \<open>
  Claim C2, amended. Let \<open>n\<close> be the numerator \<^verbatim>\<open>x - a\<close> and \<open>d\<close> the denominator
  \<^verbatim>\<open>b - a + 1e-9\<close>, both as the code computes them in doubles from finite \<open>x\<close>, \<open>a\<close>,
  \<open>b\<close>. Then \<open>normClip x a b\<close> is NaN exactly when \<open>n = d = 0\<close> or \<open>n\<close> and \<open>d\<close> are both
  infinite, and lies in \<open>[0, 1]\<close> otherwise. The denominator is a positive finite number
  whenever \<open>a \<le> b\<close> and \<open>b - a \<le> 2^1023\<close>. Whenever it is positive and finite:
  \<open>normClip\<close> is 0 for every \<open>x \<le> a\<close>; it is 1 whenever \<open>d \<le> n\<close> (which \<open>x \<ge> b\<close> alone
  does not give); for \<open>0 \<le> n \<le> d\<close> it is the quotient \<open>n / d\<close>, rounded to a double; and it
  is monotonically non-decreasing in \<open>x\<close>.
\<close>

theorem normClip_range:
  assumes n: "jsub (Fin x) (Fin a) = n"
    and d: "jadd (jsub (Fin b) (Fin a)) (lit (1 / 10 ^ 9)) = d"
  shows "((normClip (Fin x) (Fin a) (Fin b) = NaN)
            = ((n = Fin 0 \<and> d = Fin 0) \<or> (\<not> is_fin n \<and> \<not> is_fin d)))
    \<and> (normClip (Fin x) (Fin a) (Fin b) \<noteq> NaN \<longrightarrow>
          jle (Fin 0) (normClip (Fin x) (Fin a) (Fin b))
          \<and> jle (normClip (Fin x) (Fin a) (Fin b)) (Fin 1))
    \<and> (a \<le> b \<and> b - a \<le> 2 ^ 1023 \<longrightarrow> (\<exists>dd. d = Fin dd \<and> 0 < dd))
    \<and> (\<forall>dd. d = Fin dd \<and> 0 < dd \<longrightarrow>
          (x \<le> a \<longrightarrow> normClip (Fin x) (Fin a) (Fin b) = Fin 0)
          \<and> (jle d n \<longrightarrow> normClip (Fin x) (Fin a) (Fin b) = Fin 1)
          \<and> (\<forall>nn. n = Fin nn \<and> 0 \<le> nn \<and> nn \<le> dd \<longrightarrow>
                normClip (Fin x) (Fin a) (Fin b) = dbl (nn / dd))
          \<and> (\<forall>y. x \<le> y \<longrightarrow>
                jle (normClip (Fin x) (Fin a) (Fin b)) (normClip (Fin y) (Fin a) (Fin b))))"
proof (intro conjI)
  have nn: "n \<noteq> NaN" using n by (auto simp: jsub_Fin)
  have dn: "d \<noteq> NaN" using d denominator_not_NaN [of b a] by simp
  have nc: "normClip (Fin x) (Fin a) (Fin b) = Math_max (Fin 0) (Math_min (Fin 1) (jdiv n d))"
    unfolding normClip_def n d ..
  show "(normClip (Fin x) (Fin a) (Fin b) = NaN)
            = ((n = Fin 0 \<and> d = Fin 0) \<or> (\<not> is_fin n \<and> \<not> is_fin d))"
    unfolding nc clamp_NaN_iff by (rule jdiv_NaN_iff [OF nn dn])
  show "normClip (Fin x) (Fin a) (Fin b) \<noteq> NaN \<longrightarrow>
          jle (Fin 0) (normClip (Fin x) (Fin a) (Fin b))
          \<and> jle (normClip (Fin x) (Fin a) (Fin b)) (Fin 1)"
    using normClip_unit_or_NaN [of "Fin x" "Fin a" "Fin b"] by auto
  show "a \<le> b \<and> b - a \<le> 2 ^ 1023 \<longrightarrow> (\<exists>dd. d = Fin dd \<and> 0 < dd)"
    using denominator_ordered [of a b] d by auto
  show "\<forall>dd. d = Fin dd \<and> 0 < dd \<longrightarrow>
          (x \<le> a \<longrightarrow> normClip (Fin x) (Fin a) (Fin b) = Fin 0)
          \<and> (jle d n \<longrightarrow> normClip (Fin x) (Fin a) (Fin b) = Fin 1)
          \<and> (\<forall>nn. n = Fin nn \<and> 0 \<le> nn \<and> nn \<le> dd \<longrightarrow>
                normClip (Fin x) (Fin a) (Fin b) = dbl (nn / dd))
          \<and> (\<forall>y. x \<le> y \<longrightarrow>
                jle (normClip (Fin x) (Fin a) (Fin b)) (normClip (Fin y) (Fin a) (Fin b)))"
  proof (intro allI impI, elim conjE)
    fix dd
    assume dd: "d = Fin dd" "0 < dd"
    have d': "jadd (jsub (Fin b) (Fin a)) (lit (1 / 10 ^ 9)) = Fin dd" using d dd(1) by simp
    show "(x \<le> a \<longrightarrow> normClip (Fin x) (Fin a) (Fin b) = Fin 0)
          \<and> (jle d n \<longrightarrow> normClip (Fin x) (Fin a) (Fin b) = Fin 1)
          \<and> (\<forall>nn. n = Fin nn \<and> 0 \<le> nn \<and> nn \<le> dd \<longrightarrow>
                normClip (Fin x) (Fin a) (Fin b) = dbl (nn / dd))
          \<and> (\<forall>y. x \<le> y \<longrightarrow>
                jle (normClip (Fin x) (Fin a) (Fin b)) (normClip (Fin y) (Fin a) (Fin b)))"
    proof (intro conjI impI allI)
      assume "x \<le> a"
      from normClip_zero [OF d' dd(2) this] show "normClip (Fin x) (Fin a) (Fin b) = Fin 0" .
    next
      assume "jle d n"
      then have "jle (Fin dd) (jsub (Fin x) (Fin a))" using dd(1) n by simp
      from normClip_one [OF d' dd(2) this] show "normClip (Fin x) (Fin a) (Fin b) = Fin 1" .
    next
      fix nn
      assume h: "n = Fin nn \<and> 0 \<le> nn \<and> nn \<le> dd"
      then have "jsub (Fin x) (Fin a) = Fin nn" using n by simp
      from normClip_between [OF d' dd(2) this] h
      show "normClip (Fin x) (Fin a) (Fin b) = dbl (nn / dd)" by simp
    next
      fix y :: real
      assume "x \<le> y"
      from normClip_mono [OF d' dd(2) this]
      show "jle (normClip (Fin x) (Fin a) (Fin b)) (normClip (Fin y) (Fin a) (Fin b))" .
    qed
  qed
qed

theorem normClip_range_witness:
  "normClip (Fin 0) (Fin 0) (Fin 10) = Fin 0
   \<and> normClip (Fin 20) (Fin 0) (Fin 10) = Fin 1
   \<and> jle (normClip (Fin 5) (Fin 0) (Fin 10)) (normClip (Fin 7) (Fin 0) (Fin 10))
   \<and> normClip (Fin 5) (Fin 0) (Fin 10) \<noteq> NaN"
proof -
  define d where "d = jadd (jsub (Fin 10) (Fin 0)) (lit (1 / 10 ^ 9))"
  have d: "jadd (jsub (Fin 10) (Fin 0)) (lit (1 / 10 ^ 9)) = d" by (simp add: d_def)
  have ab: "(0::real) \<le> 10 \<and> (10::real) - 0 \<le> 2 ^ 1023"
    using power_increasing [of 4 1023 "2::real"] by simp
  have r10: "representable 10" "representable (10 + 1)" by (simp_all add: rep_numeral)
  from denominator_const [OF r10] obtain dd where dd: "d = Fin dd" "0 < dd" "dd \<le> 11"
    unfolding d by auto
  have n0: "jsub (Fin 0) (Fin 0) = Fin 0" and n5: "jsub (Fin 5) (Fin 0) = Fin 5"
    and n20: "jsub (Fin 20) (Fin 0) = Fin 20"
    by (simp_all add: jsub_Fin)
  from normClip_range [OF n0 d] ab obtain dd0 where "d = Fin dd0 \<and> 0 < dd0" by blast
  with normClip_range [OF n0 d] have z: "normClip (Fin 0) (Fin 0) (Fin 10) = Fin 0" by blast
  have "jle d (Fin 20)" using dd by simp
  with normClip_range [OF n20 d] dd have o: "normClip (Fin 20) (Fin 0) (Fin 10) = Fin 1"
    by blast
  from normClip_range [OF n5 d] dd
  have m: "jle (normClip (Fin 5) (Fin 0) (Fin 10)) (normClip (Fin 7) (Fin 0) (Fin 10))"
    by (elim conjE) (drule spec [of _ dd], simp)
  from normClip_range [OF n5 d] dd have nn: "normClip (Fin 5) (Fin 0) (Fin 10) \<noteq> NaN"
    by simp
  from z o m nn show ?thesis by (intro conjI)
qed

text \<open>
  Claim C1. Whenever \<^verbatim>\<open>analyzeBBox\<close> returns a result on a valid input, that is, when
  the area that the library gives for the bounding box of the call and the total
  length of the roads fetched in the call are finite numbers, the field
  \<open>SocioEconScore\<close> of the metrics is a number in the closed interval \<open>[0, 100]\<close>.
\<close>

theorem score_within_0_100:
  assumes run: "analyzeBBox e (JArray b) opts = (reqs, Inr res)"
    and area: "\<forall>a. turf_area e b = Inr a \<longrightarrow> is_fin a"
    and len: "\<forall>roadsOs roadsGeo l.
        snd (overpass e (Q_ROADS (Q_BASE e b)) (overpassRetries opts)) = Inr roadsOs \<longrightarrow>
        osmToGeoJSON roadsOs [''way''] = Inr roadsGeo \<longrightarrow>
        lengthKm e (Some roadsGeo) = Inr l \<longrightarrow> is_fin l"
  shows "\<exists>s. SocioEconScore (result_metrics res) = Fin s \<and> 0 \<le> s \<and> s \<le> 100"
proof -
  from analyzeBBox_Inr [OF run] obtain ro bo ao where
    ro: "snd (overpass e (Q_ROADS (Q_BASE e b)) (overpassRetries opts)) = Inr ro" and
    cm: "compute_metrics e b ro bo ao = Inr (result_metrics res)" by auto
  from len ro have "\<forall>roadsGeo l. osmToGeoJSON ro [''way''] = Inr roadsGeo \<longrightarrow>
      lengthKm e (Some roadsGeo) = Inr l \<longrightarrow> is_fin l" by blast
  from compute_metrics_score [OF cm area this] show ?thesis by force
qed

theorem score_within_0_100_witness:
  "\<exists>reqs res s. analyzeBBox sample_env (JArray sample_bbox) default_options = (reqs, Inr res)
      \<and> SocioEconScore (result_metrics res) = Fin s \<and> 0 \<le> s \<and> s \<le> 100"
proof -
  from score_within_0_100 [OF sample_run sample_area_finite sample_length_finite] show ?thesis
    using sample_run by blast
qed

text \<open>
  Claim C9, as stated, at a bounding box of four strings, which passes the check of
  the argument, with the remote interpreter answering and the area library giving NaN:
  the call returns a result whose \<open>SocioEconScore\<close> is NaN, and NaN is not at most 70.
\<close>

theorem score_NaN_counterexample:
  "analyzeBBox nan_area_env (JArray [JString ''a'', JString ''b'', JString ''c'', JString ''d''])
     default_options =
   ([(Q_ROADS ''(b,a,d,c)'', 1), (Q_BUILD ''(b,a,d,c)'', 1), (Q_AMEN ''(b,a,d,c)'', 1)],
    Inr \<lparr>result_metrics =
           \<lparr>area_km2 = NaN, roads_km = Fin 0, roads_km_per_km2 = NaN,
            buildings_count = 0, buildings_per_km2 = NaN,
            intersections_per_km2 = Fin 0, hospitals_per_km2 = NaN,
            schools_per_km2 = NaN, SocioEconScore = NaN\<rparr>,
         analysis = ''report''\<rparr>)
   \<and> \<not> jle NaN (Fin 70)"
  using nan_area_run by simp

text \<open>
  Claim C9, amended. In every result of \<^verbatim>\<open>analyzeBBox\<close> the field \<open>SocioEconScore\<close> is
  NaN or a number that is at most 70, and it is a number that is at most 70 whenever
  the area that the library gives for the bounding box of the call and the total
  length of the roads fetched in the call are finite. The activity and green terms
  are the constant 0, so only the infra and access terms, of combined weight 0.7,
  contribute.
\<close>

theorem score_at_most_70:
  assumes run: "analyzeBBox e (JArray b) opts = (reqs, Inr res)"
  shows "(SocioEconScore (result_metrics res) = NaN
          \<or> (\<exists>s. SocioEconScore (result_metrics res) = Fin s \<and> s \<le> 70))
       \<and> ((\<forall>a. turf_area e b = Inr a \<longrightarrow> is_fin a)
          \<and> (\<forall>roadsOs roadsGeo l.
                snd (overpass e (Q_ROADS (Q_BASE e b)) (overpassRetries opts)) = Inr roadsOs \<longrightarrow>
                osmToGeoJSON roadsOs [''way''] = Inr roadsGeo \<longrightarrow>
                lengthKm e (Some roadsGeo) = Inr l \<longrightarrow> is_fin l)
          \<longrightarrow> (\<exists>s. SocioEconScore (result_metrics res) = Fin s \<and> s \<le> 70))"
proof -
  from analyzeBBox_Inr [OF run] obtain ro bo ao where
    ro: "snd (overpass e (Q_ROADS (Q_BASE e b)) (overpassRetries opts)) = Inr ro" and
    cm: "compute_metrics e b ro bo ao = Inr (result_metrics res)" by auto
  have "SocioEconScore (result_metrics res) = NaN
          \<or> (\<exists>s. SocioEconScore (result_metrics res) = Fin s \<and> s \<le> 70)"
    using compute_metrics_score_or_NaN [OF cm] by auto
  moreover have "\<exists>s. SocioEconScore (result_metrics res) = Fin s \<and> s \<le> 70"
    if h: "(\<forall>a. turf_area e b = Inr a \<longrightarrow> is_fin a)
          \<and> (\<forall>roadsOs roadsGeo l.
                snd (overpass e (Q_ROADS (Q_BASE e b)) (overpassRetries opts)) = Inr roadsOs \<longrightarrow>
                osmToGeoJSON roadsOs [''way''] = Inr roadsGeo \<longrightarrow>
                lengthKm e (Some roadsGeo) = Inr l \<longrightarrow> is_fin l)"
  proof -
    from h ro have "\<forall>roadsGeo l. osmToGeoJSON ro [''way''] = Inr roadsGeo \<longrightarrow>
        lengthKm e (Some roadsGeo) = Inr l \<longrightarrow> is_fin l" by blast
    from compute_metrics_score [OF cm _ this] h show ?thesis by blast
  qed
  ultimately show ?thesis by blast
qed

theorem score_at_most_70_witness:
  "\<exists>reqs res s. analyzeBBox sample_env (JArray sample_bbox) default_options = (reqs, Inr res)
      \<and> SocioEconScore (result_metrics res) = Fin s \<and> s \<le> 70"
proof -
  from score_at_most_70 [OF sample_run, THEN conjunct2, rule_format, OF conjI, OF sample_area_finite sample_length_finite]
  show ?thesis using sample_run by blast
qed

text \<open>
  Claim C3, as stated, at a four-element array of strings, with the remote interpreter
  unreachable: the call does not fail with \<open>ValidationError\<close>. It sends two requests
  for each of the three queries and fails with the error of the fetch.
\<close>

theorem bbox_of_strings_counterexample:
  "analyzeBBox offline_env (JArray [JString ''a'', JString ''b'', JString ''c'', JString ''d''])
     default_options =
   ([(Q_ROADS ''(b,a,d,c)'', 2), (Q_BUILD ''(b,a,d,c)'', 2), (Q_AMEN ''(b,a,d,c)'', 2)],
    Inl (FetchError ''Network Error''))"
  by (rule offline_run)

text \<open>
  Claim C3, amended. \<^verbatim>\<open>analyzeBBox\<close> fails with \<open>ValidationError\<close> exactly when the
  bbox argument is not an array of four elements, and then no request has been sent.
  The elements themselves are not inspected: for every array of four elements and a
  retry count that is not negative, a request is sent for each of the three queries.
\<close>

theorem bbox_validation:
  "(snd (analyzeBBox e bbox opts) = Inl ValidationError) = (\<not> (\<exists>b. bbox = JArray b \<and> length b = 4))
   \<and> (\<not> (\<exists>b. bbox = JArray b \<and> length b = 4) \<longrightarrow> fst (analyzeBBox e bbox opts) = [])
   \<and> ((\<exists>b. bbox = JArray b \<and> length b = 4) \<and> 0 \<le> overpassRetries opts \<longrightarrow>
        length (fst (analyzeBBox e bbox opts)) = 3
        \<and> (\<forall>(q, n) \<in> set (fst (analyzeBBox e bbox opts)). 1 \<le> n))"
proof (cases "\<exists>b. bbox = JArray b \<and> length b = 4")
  case True
  then obtain b where b: "bbox = JArray b" "length b = 4" by blast
  from analyzeBBox_valid_error [OF b(2)] analyzeBBox_requests [OF b(2)] b True
  show ?thesis by auto
next
  case False
  from analyzeBBox_invalid [OF False] False show ?thesis by simp
qed

theorem bbox_validation_witness:
  "analyzeBBox sample_env (JArray [JNumber (Fin 1), JNumber (Fin 2), JNumber (Fin 3)])
     default_options = ([], Inl ValidationError)
   \<and> analyzeBBox sample_env JNull default_options = ([], Inl ValidationError)
   \<and> length (fst (analyzeBBox offline_env
        (JArray [JString ''a'', JString ''b'', JString ''c'', JString ''d'']) default_options)) = 3"
  using bbox_validation [of sample_env "JArray [JNumber (Fin 1), JNumber (Fin 2), JNumber (Fin 3)]"
      default_options]
    bbox_validation [of sample_env JNull default_options]
    bbox_validation [of offline_env "JArray [JString ''a'', JString ''b'', JString ''c'', JString ''d'']"
      default_options]
  by (simp add: prod_eq_iff default_options_def)

text \<open>
  Claim C4. For every query \<open>q\<close> and every retry count \<open>r \<ge> 0\<close>: if the request fails
  on the first \<open>k \<le> r\<close> attempts and then succeeds, \<^verbatim>\<open>overpass\<close> returns the payload
  of attempt \<open>k\<close> unchanged, after \<open>k + 1\<close> requests; if it fails on all \<open>r + 1\<close>
  attempts, \<^verbatim>\<open>overpass\<close> throws the failure of the last attempt, after \<open>r + 1\<close>
  requests.
\<close>

theorem overpass_retries:
  assumes "0 \<le> r"
  shows "(int k \<le> r \<and> (\<forall>i<k. isl (post e q i)) \<and> post e q k = Inr d
            \<longrightarrow> overpass e q r = (k + 1, Inr (Some d)))
       \<and> ((\<forall>i\<le>nat r. isl (post e q i)) \<and> post e q (nat r) = Inl err
            \<longrightarrow> overpass e q r = (nat r + 1, Inl (FetchError err)))"
proof (intro conjI impI)
  assume h: "int k \<le> r \<and> (\<forall>i<k. isl (post e q i)) \<and> post e q k = Inr d"
  show "overpass e q r = (k + 1, Inr (Some d))"
    unfolding overpass_def
    by (rule overpass_loop_success) (use h in simp_all)
next
  assume h: "(\<forall>i\<le>nat r. isl (post e q i)) \<and> post e q (nat r) = Inl err"
  have "overpass_loop (post e q) r 0 =
          (nat r + 1, Inl (FetchError (projl (post e q (nat r)))))"
    by (rule overpass_loop_failure) (use h assms in simp_all)
  with h show "overpass e q r = (nat r + 1, Inl (FetchError err))"
    by (simp add: overpass_def)
qed

theorem overpass_retries_witness:
  "overpass flaky_env (Q_ROADS sample_query) 1 = (2, Inr (Some sample_roads))
   \<and> overpass offline_env (Q_ROADS sample_query) 1 = (2, Inl (FetchError ''Network Error''))"
  using overpass_retries [where r = 1 and k = 1 and e = flaky_env and q = "Q_ROADS sample_query"
      and d = sample_roads]
    overpass_retries [where r = 1 and e = offline_env and q = "Q_ROADS sample_query"
      and err = "''Network Error''"]
  by (simp add: flaky_env_def offline_env_def sample_answers)

text \<open>
  Claim C5. If any one of the three fetches (roads, buildings, amenities) fails after
  its retries, \<^verbatim>\<open>analyzeBBox\<close> fails with the error of a failed fetch and returns no
  metrics; when the other two fetches succeeded, the error is the one of that fetch.
\<close>

theorem fetch_failure_aborts:
  assumes len: "length b = 4"
    and Q: "Q \<in> {Q_ROADS (Q_BASE e b), Q_BUILD (Q_BASE e b), Q_AMEN (Q_BASE e b)}"
    and fail: "snd (overpass e Q (overpassRetries opts)) = Inl err"
  shows "(\<exists>err' Q'. Q' \<in> {Q_ROADS (Q_BASE e b), Q_BUILD (Q_BASE e b), Q_AMEN (Q_BASE e b)}
            \<and> snd (overpass e Q' (overpassRetries opts)) = Inl err'
            \<and> snd (analyzeBBox e (JArray b) opts) = Inl err')
       \<and> ((\<forall>Q' \<in> {Q_ROADS (Q_BASE e b), Q_BUILD (Q_BASE e b), Q_AMEN (Q_BASE e b)}.
              Q' \<noteq> Q \<longrightarrow> \<not> isl (snd (overpass e Q' (overpassRetries opts))))
            \<longrightarrow> snd (analyzeBBox e (JArray b) opts) = Inl err)"
proof -
  let ?Qs = "[Q_ROADS (Q_BASE e b), Q_BUILD (Q_BASE e b), Q_AMEN (Q_BASE e b)]"
  let ?rs = "map (\<lambda>Q'. snd (overpass e Q' (overpassRetries opts))) ?Qs"
  from Q fail have "Inl err \<in> set ?rs" by auto
  then obtain i where i: "i < length ?rs" "?rs ! i = Inl err"
    unfolding in_set_conv_nth by blast
  then have "isl (?rs ! i)" by simp
  from Promise_all_rejects [OF i(1) this] obtain err' where
    pa: "Promise_all (settle_order e) ?rs = Inl err'" by blast
  then have res: "snd (analyzeBBox e (JArray b) opts) = Inl err'"
    using len by (simp add: analyzeBBox_valid)
  from Promise_all_Inl_set [OF pa]
  have "Inl err' \<in> (\<lambda>Q'. snd (overpass e Q' (overpassRetries opts))) ` set ?Qs"
    by simp
  then obtain Q' where
    Q': "Q' \<in> set ?Qs" "snd (overpass e Q' (overpassRetries opts)) = Inl err'"
    by (metis (no_types, lifting) imageE)
  have first: "\<exists>err' Q'. Q' \<in> {Q_ROADS (Q_BASE e b), Q_BUILD (Q_BASE e b), Q_AMEN (Q_BASE e b)}
            \<and> snd (overpass e Q' (overpassRetries opts)) = Inl err'
            \<and> snd (analyzeBBox e (JArray b) opts) = Inl err'"
    using Q' res by auto
  have second: "snd (analyzeBBox e (JArray b) opts) = Inl err"
    if only: "\<forall>Q' \<in> {Q_ROADS (Q_BASE e b), Q_BUILD (Q_BASE e b), Q_AMEN (Q_BASE e b)}.
              Q' \<noteq> Q \<longrightarrow> \<not> isl (snd (overpass e Q' (overpassRetries opts)))"
  proof -
    have "Q' = Q" using only Q' by auto
    with Q' fail res show ?thesis by simp
  qed
  from first second show ?thesis by blast
qed

theorem fetch_failure_aborts_witness:
  "snd (overpass amenities_down_env (Q_ROADS sample_query) 1) = Inr (Some sample_roads)
   \<and> snd (overpass amenities_down_env (Q_BUILD sample_query) 1) = Inr (Some sample_buildings)
   \<and> snd (overpass amenities_down_env (Q_AMEN sample_query) 1) = Inl (FetchError ''Network Error'')
   \<and> snd (analyzeBBox amenities_down_env (JArray sample_bbox) default_options)
       = Inl (FetchError ''Network Error'')"
proof -
  have len: "length sample_bbox = 4" by (simp add: sample_bbox_def)
  have ne: "Q_ROADS sample_query \<noteq> Q_AMEN sample_query" "Q_BUILD sample_query \<noteq> Q_AMEN sample_query"
    by (simp_all add: Q_ROADS_def Q_BUILD_def Q_AMEN_def sample_query_def)
  have r: "overpassRetries default_options = 1" by (simp add: default_options_def)
  from fetch_failure_aborts [where e = amenities_down_env and b = sample_bbox
      and opts = default_options and Q = "Q_AMEN sample_query"
      and err = "FetchError ''Network Error''", OF len]
  have "snd (analyzeBBox amenities_down_env (JArray sample_bbox) default_options)
       = Inl (FetchError ''Network Error'')"
    using ne by (simp add: amenities_down_Q_BASE r amenities_down_overpass)
  then show ?thesis by (simp add: amenities_down_overpass)
qed

text \<open>
  Claim C6. \<^verbatim>\<open>intersectionDensityPerKm2\<close> quantizes every vertex of every LineString and
  MultiLineString of the road collection: longitude and latitude are multiplied by
  10000, in doubles, and the product is rounded to the nearest integer, to the larger
  one of two equally near (an infinite product stays as it is). It counts one
  intersection for each cell reached by at least three vertices and, for an area that
  is not zero, returns that count divided by the area, in doubles; when exactly one
  cell is reached by at least three vertices, the result is \<open>1 / A\<close>.
\<close>

theorem intersection_density:
  assumes "a \<noteq> 0"
  shows "roads_loop fs [] = map spec_cell (spec_vertices fs)
    \<and> (\<forall>v c. c = fst v \<or> c = snd v \<longrightarrow>
          (\<forall>p. dbl (c * 10000) = Fin p \<longrightarrow>
             (\<exists>k. Math_round (jmul (Fin c) (Fin 10000)) = Fin (of_int k)
                  \<and> \<bar>of_int k - p\<bar> \<le> 1 / 2
                  \<and> (\<forall>j. \<bar>of_int j - p\<bar> \<le> 1 / 2 \<longrightarrow> j \<le> k)))
          \<and> (\<not> is_fin (dbl (c * 10000)) \<longrightarrow>
               Math_round (jmul (Fin c) (Fin 10000)) = dbl (c * 10000)))
    \<and> (\<forall>v. spec_cell v = (Math_round (jmul (Fin (fst v)) (Fin 10000)),
                           Math_round (jmul (Fin (snd v)) (Fin 10000))))
    \<and> intersectionDensityPerKm2 (Some fs) (Fin a) = dbl (real (spec_intersections fs) / a)
    \<and> (spec_intersections fs = 1 \<longrightarrow> intersectionDensityPerKm2 (Some fs) (Fin a) = dbl (1 / a))"
proof -
  have pts: "roads_loop fs [] = map spec_cell (spec_vertices fs)"
    by (simp add: roads_loop_eq)
  have near: "(\<forall>p. dbl (c * 10000) = Fin p \<longrightarrow>
             (\<exists>k. Math_round (jmul (Fin c) (Fin 10000)) = Fin (of_int k)
                  \<and> \<bar>of_int k - p\<bar> \<le> 1 / 2
                  \<and> (\<forall>j. \<bar>of_int j - p\<bar> \<le> 1 / 2 \<longrightarrow> j \<le> k)))
          \<and> (\<not> is_fin (dbl (c * 10000)) \<longrightarrow>
               Math_round (jmul (Fin c) (Fin 10000)) = dbl (c * 10000))" for c :: real
  proof (intro conjI allI impI)
    fix p assume "dbl (c * 10000) = Fin p"
    then have "jmul (Fin c) (Fin 10000) = Fin p" by simp
    then show "\<exists>k. Math_round (jmul (Fin c) (Fin 10000)) = Fin (of_int k)
                  \<and> \<bar>of_int k - p\<bar> \<le> 1 / 2
                  \<and> (\<forall>j. \<bar>of_int j - p\<bar> \<le> 1 / 2 \<longrightarrow> j \<le> k)"
      using Math_round_nearest [of p] by simp
  next
    assume "\<not> is_fin (dbl (c * 10000))"
    then show "Math_round (jmul (Fin c) (Fin 10000)) = dbl (c * 10000)"
      by (cases "dbl (c * 10000)") simp_all
  qed
  have cell: "\<forall>v. spec_cell v = (Math_round (jmul (Fin (fst v)) (Fin 10000)),
                           Math_round (jmul (Fin (snd v)) (Fin 10000)))"
    by (simp add: spec_cell_def)
  have ic: "length (filter (\<lambda>v. 3 \<le> v) (map snd (foldl count_key [] (roads_loop fs []))))
              = spec_intersections fs"
    by (simp only: pts intersections_count spec_intersections_def)
  have empty: "spec_intersections fs = 0" if "roads_loop fs [] = []"
    using that pts by (simp add: spec_intersections_def)
  have dens: "intersectionDensityPerKm2 (Some fs) (Fin a) = dbl (real (spec_intersections fs) / a)"
    using assms empty ic by (simp add: intersectionDensityPerKm2_def Let_def dbl_0)
  have one: "spec_intersections fs = 1 \<longrightarrow>
      intersectionDensityPerKm2 (Some fs) (Fin a) = dbl (1 / a)"
    using dens by simp
  from near have near': "\<forall>v c. c = fst v \<or> c = snd v \<longrightarrow>
          (\<forall>p. dbl (c * 10000) = Fin p \<longrightarrow>
             (\<exists>k. Math_round (jmul (Fin c) (Fin 10000)) = Fin (of_int k)
                  \<and> \<bar>of_int k - p\<bar> \<le> 1 / 2
                  \<and> (\<forall>j. \<bar>of_int j - p\<bar> \<le> 1 / 2 \<longrightarrow> j \<le> k)))
          \<and> (\<not> is_fin (dbl (c * 10000)) \<longrightarrow>
               Math_round (jmul (Fin c) (Fin 10000)) = dbl (c * 10000))"
    by (intro allI impI) (rule near)
  show ?thesis
    by (intro conjI) (rule pts, rule near', rule cell, rule dens, rule one)
qed

theorem intersection_density_witness:
  "spec_intersections (projr (osmToGeoJSON (Some sample_roads) [''way''])) = 1
   \<and> intersectionDensityPerKm2 (Some (projr (osmToGeoJSON (Some sample_roads) [''way''])))
        (Fin 2) = Fin (1 / 2)
   \<and> spec_cell (5534023222112865 / 2 ^ 65, 5425433694535103 / 2 ^ 46) = (Fin 1, Fin 771001)"
proof -
  let ?fs = "projr (osmToGeoJSON (Some sample_roads) [''way''])"
  have two: "(2::real) \<noteq> 0" by simp
  have ev: "intersectionDensityPerKm2 (Some ?fs) (Fin 2) = Fin (1 / 2)"
    by (simp add: sample_roadsGeo sample_intersections)
  have d: "dbl (real (spec_intersections ?fs) / 2) = Fin (1 / 2)"
    using intersection_density [OF two, of ?fs] ev by simp
  have n0: "spec_intersections ?fs \<noteq> 0"
  proof
    assume "spec_intersections ?fs = 0"
    with d show False by (simp add: dbl_0)
  qed
  have n2: "\<not> 2 \<le> spec_intersections ?fs"
  proof
    assume "2 \<le> spec_intersections ?fs"
    then have "1 \<le> real (spec_intersections ?fs) / 2" by simp
    from dbl_mono [OF this] show False by (simp add: d dbl_1)
  qed
  from n0 n2 have one: "spec_intersections ?fs = 1" by simp
  have cells: "spec_cell (5534023222112865 / 2 ^ 65, 5425433694535103 / 2 ^ 46)
      = (Fin 1, Fin 771001)"
    unfolding spec_cell_def fst_conv snd_conv cell_of_0_00015 cell_of_77_10005 by (rule refl)
  from one ev cells show ?thesis by (intro conjI)
qed

text \<open>
  Claim C7. For every way element, among the elements converted, whose tags hold a
  truthy \<^verbatim>\<open>building\<close> value and whose geometry has \<open>n\<close> coordinates, the conversion
  produces a Polygon feature with a single ring of \<open>n + 1\<close> entries: the coordinates of
  the way followed by the first of them again, so the first and the last entry of the
  ring are identical. (For \<open>n = 0\<close> the ring is the single entry \<^verbatim>\<open>undefined\<close>.)
\<close>

theorem building_way_polygon:
  assumes way: "el_type el = ''way''" "''way'' \<in> set ts"
    and geom: "el_geometry el = Some g"
    and tag: "el_tags el = Some t" "t ''building'' = Some v" "v \<noteq> []"
    and el: "elements j = Some els" "el \<in> set els"
  shows "\<exists>ring. \<lparr>f_geometry = Some (Polygon [ring]), f_properties = make_props el\<rparr>
              \<in> set (projr (osmToGeoJSON (Some j) ts))
          \<and> \<not> isl (osmToGeoJSON (Some j) ts)
          \<and> length ring = length g + 1
          \<and> take (length g) ring = map (\<lambda>n. Some (g_lon n, g_lat n)) g
          \<and> hd ring = last ring
          \<and> (g \<noteq> [] \<longrightarrow> last ring = Some (g_lon (hd g), g_lat (hd g)))"
proof -
  let ?coords = "map (\<lambda>n. (g_lon n, g_lat n)) g"
  let ?ring = "map Some ?coords @ [first ?coords]"
  have "truthy (make_props el ''building'')"
    using tag by (simp add: make_props_apply tags_or_empty_def)
  from convert_building [OF way geom this]
  have "\<lparr>f_geometry = Some (Polygon [?ring]), f_properties = make_props el\<rparr>
          \<in> set (List.map_filter (convert ts) els)"
    using el(2) by (auto simp: List.map_filter_def intro!: image_eqI [where x = el])
  then have mem: "\<lparr>f_geometry = Some (Polygon [?ring]), f_properties = make_props el\<rparr>
              \<in> set (projr (osmToGeoJSON (Some j) ts))"
    by (simp add: osmToGeoJSON_eq el(1))
  have ok: "\<not> isl (osmToGeoJSON (Some j) ts)" by (simp add: osmToGeoJSON_eq)
  have len: "length ?ring = length g + 1" by simp
  have tk: "take (length g) ?ring = map (\<lambda>n. Some (g_lon n, g_lat n)) g" by simp
  have hl: "hd ?ring = last ?ring"
    by (cases g) (simp_all add: first_eq)
  have lst: "g \<noteq> [] \<longrightarrow> last ?ring = Some (g_lon (hd g), g_lat (hd g))"
    by (cases g) (simp_all add: first_eq)
  from mem ok len tk hl lst show ?thesis by blast
qed

theorem building_way_polygon_witness:
  "\<lparr>f_geometry = Some (Polygon [[Some (0, 0), Some (1 / 1024, 0), Some (1 / 1024, 1 / 1024),
        Some (0, 0)]]),
     f_properties = make_props (way 4 [''building'' \<mapsto> ''yes'']
        [(0, 0), (0, 1 / 1024), (1 / 1024, 1 / 1024)])\<rparr>
   \<in> set (projr (osmToGeoJSON (Some sample_buildings) [''way'']))"
proof -
  let ?g = "map (\<lambda>(la, lo). \<lparr>g_lat = la, g_lon = lo\<rparr>) [(0, 0), (0, 1 / 1024), (1 / 1024, 1 / 1024 :: real)]"
  let ?el = "way 4 [''building'' \<mapsto> ''yes''] [(0, 0), (0, 1 / 1024), (1 / 1024, 1 / 1024)]"
  have "\<exists>ring. \<lparr>f_geometry = Some (Polygon [ring]), f_properties = make_props ?el\<rparr>
              \<in> set (projr (osmToGeoJSON (Some sample_buildings) [''way'']))
          \<and> \<not> isl (osmToGeoJSON (Some sample_buildings) [''way''])
          \<and> length ring = length ?g + 1
          \<and> take (length ?g) ring = map (\<lambda>n. Some (g_lon n, g_lat n)) ?g
          \<and> hd ring = last ring
          \<and> (?g \<noteq> [] \<longrightarrow> last ring = Some (g_lon (hd ?g), g_lat (hd ?g)))"
    by (rule building_way_polygon [where t = "[''building'' \<mapsto> ''yes'']" and v = "''yes''"
          and els = "[?el]"])
       (simp_all add: way_fields sample_buildings_def)
  then show ?thesis by (simp add: sample_buildGeo)
qed

text \<open>
  Claim C8. The features of the result are the converted elements, in order, and for
  every converted element the properties are the element id under the key \<^verbatim>\<open>id\<close>
  merged with the tags: a tag named \<^verbatim>\<open>id\<close> replaces the element id, and every other
  key has exactly the value of the tag of that name (none if there is no such tag).
\<close>

theorem properties_merge:
  "osmToGeoJSON (Some j) ts =
     Inr (List.map_filter (convert ts) (case elements j of None \<Rightarrow> [] | Some els \<Rightarrow> els))
   \<and> (\<forall>el f. convert ts el = Some f \<longrightarrow>
        f_properties f ''id'' =
          (case tags_or_empty el ''id'' of
             Some v \<Rightarrow> Some (PStr v)
           | None \<Rightarrow> Some (PNum (el_id el)))
        \<and> (\<forall>k. k \<noteq> ''id'' \<longrightarrow> f_properties f k = map_option PStr (tags_or_empty el k)))"
  by (auto simp: osmToGeoJSON_eq make_props_apply dest!: convert_properties split: option.splits)

theorem properties_merge_witness:
  "f_properties (the (convert [''node''] (node 8 [''id'' \<mapsto> ''x'', ''amenity'' \<mapsto> ''school''] 0 0)))
     ''id'' = Some (PStr ''x'')
   \<and> f_properties (the (convert [''node''] (node 8 [''id'' \<mapsto> ''x'', ''amenity'' \<mapsto> ''school''] 0 0)))
     ''amenity'' = Some (PStr ''school'')
   \<and> f_properties (the (convert [''node''] (node 5 [''amenity'' \<mapsto> ''Hospital''] 0 0)))
     ''id'' = Some (PNum 5)"
proof -
  let ?a = "node 8 [''id'' \<mapsto> ''x'', ''amenity'' \<mapsto> ''school''] 0 0"
  let ?b = "node 5 [''amenity'' \<mapsto> ''Hospital''] 0 0"
  have all: "\<And>el f. convert [''node''] el = Some f \<Longrightarrow>
        f_properties f ''id'' =
          (case tags_or_empty el ''id'' of
             Some v \<Rightarrow> Some (PStr v)
           | None \<Rightarrow> Some (PNum (el_id el)))
        \<and> (\<forall>k. k \<noteq> ''id'' \<longrightarrow> f_properties f k = map_option PStr (tags_or_empty el k))"
    using properties_merge [of "\<lparr>elements = None\<rparr>" "[''node'']"] by blast
  have a: "convert [''node''] ?a = Some (the (convert [''node''] ?a))"
    and b: "convert [''node''] ?b = Some (the (convert [''node''] ?b))"
    by (simp_all add: convert_node)
  have id5: "el_id ?b = 5" by (simp add: node_def)
  have ne: "''amenity'' \<noteq> ''id''" by simp
  from all [OF a] have "f_properties (the (convert [''node''] ?a)) ''id'' =
          (case tags_or_empty ?a ''id'' of
             Some v \<Rightarrow> Some (PStr v)
           | None \<Rightarrow> Some (PNum (el_id ?a)))"
    by (rule conjunct1)
  then have 1: "f_properties (the (convert [''node''] ?a)) ''id'' = Some (PStr ''x'')"
    by (simp only: tags_node) simp
  have "f_properties (the (convert [''node''] ?a)) ''amenity''
        = map_option PStr (tags_or_empty ?a ''amenity'')"
    by (rule all [OF a, THEN conjunct2, rule_format, OF ne])
  then have 2: "f_properties (the (convert [''node''] ?a)) ''amenity'' = Some (PStr ''school'')"
    by (simp only: tags_node) simp
  from all [OF b] have "f_properties (the (convert [''node''] ?b)) ''id'' =
          (case tags_or_empty ?b ''id'' of
             Some v \<Rightarrow> Some (PStr v)
           | None \<Rightarrow> Some (PNum (el_id ?b)))"
    by (rule conjunct1)
  then have 3: "f_properties (the (convert [''node''] ?b)) ''id'' = Some (PNum 5)"
    by (simp only: tags_node id5) simp
  from 1 2 3 show ?thesis by (intro conjI)
qed

text \<open>
  Claim C10. In every result of \<^verbatim>\<open>analyzeBBox\<close>, \<open>hospitals_per_km2\<close> and
  \<open>schools_per_km2\<close> are the rounded point densities of exactly those features of the
  amenity answer whose \<^verbatim>\<open>amenity\<close> property is a string that is, letter case aside,
  \<^verbatim>\<open>hospital\<close> respectively \<^verbatim>\<open>school\<close>. A feature without an \<^verbatim>\<open>amenity\<close> property
  (a station, a bus stop) or with the amenity \<^verbatim>\<open>clinic\<close> or \<^verbatim>\<open>university\<close> is in neither of
  the two collections.
\<close>

theorem amenity_densities:
  assumes run: "analyzeBBox e bbox opts = (reqs, Inr res)"
  shows "\<exists>b amenOs amenGeo a.
      bbox = JArray b
    \<and> snd (overpass e (Q_AMEN (Q_BASE e b)) (overpassRetries opts)) = Inr amenOs
    \<and> osmToGeoJSON amenOs [''node''] = Inr amenGeo
    \<and> turf_area e b = Inr a
    \<and> hospitals_per_km2 (result_metrics res) = toFixed 4 (pointDensityPerKm2
         (Some (filter (\<lambda>f. \<exists>s. f_properties f ''amenity'' = Some (PStr s)
                                \<and> toLowerCase s = ''hospital'') amenGeo))
         (jdiv a (Fin 1000000)))
    \<and> schools_per_km2 (result_metrics res) = toFixed 4 (pointDensityPerKm2
         (Some (filter (\<lambda>f. \<exists>s. f_properties f ''amenity'' = Some (PStr s)
                                \<and> toLowerCase s = ''school'') amenGeo))
         (jdiv a (Fin 1000000)))
    \<and> (\<forall>f \<in> set amenGeo.
          f_properties f ''amenity'' = None
          \<or> (\<exists>s. f_properties f ''amenity'' = Some (PStr s)
                  \<and> toLowerCase s \<in> {''clinic'', ''university''})
          \<longrightarrow> f \<notin> set (filter (\<lambda>f. \<exists>s. f_properties f ''amenity'' = Some (PStr s)
                                \<and> toLowerCase s = ''hospital'') amenGeo)
            \<and> f \<notin> set (filter (\<lambda>f. \<exists>s. f_properties f ''amenity'' = Some (PStr s)
                                \<and> toLowerCase s = ''school'') amenGeo))"
proof -
  from analyzeBBox_Inr [OF run] obtain b roadsOs buildOs amenOs where
    b: "bbox = JArray b" and
    am: "snd (overpass e (Q_AMEN (Q_BASE e b)) (overpassRetries opts)) = Inr amenOs" and
    cm: "compute_metrics e b roadsOs buildOs amenOs = Inr (result_metrics res)"
    by blast
  from compute_metrics_amenities [OF cm] obtain amenGeo a where
    ag: "osmToGeoJSON amenOs [''node''] = Inr amenGeo" and
    ta: "turf_area e b = Inr a" and
    hm: "hospitals_per_km2 (result_metrics res) = toFixed 4 (pointDensityPerKm2
         (Some (filter (\<lambda>f. \<exists>s. f_properties f ''amenity'' = Some (PStr s)
                                \<and> toLowerCase s = ''hospital'') amenGeo))
         (jdiv a (Fin 1000000)))" and
    sm: "schools_per_km2 (result_metrics res) = toFixed 4 (pointDensityPerKm2
         (Some (filter (\<lambda>f. \<exists>s. f_properties f ''amenity'' = Some (PStr s)
                                \<and> toLowerCase s = ''school'') amenGeo))
         (jdiv a (Fin 1000000)))"
    by blast
  have others: "\<forall>f \<in> set amenGeo.
          f_properties f ''amenity'' = None
          \<or> (\<exists>s. f_properties f ''amenity'' = Some (PStr s)
                  \<and> toLowerCase s \<in> {''clinic'', ''university''})
          \<longrightarrow> f \<notin> set (filter (\<lambda>f. \<exists>s. f_properties f ''amenity'' = Some (PStr s)
                                \<and> toLowerCase s = ''hospital'') amenGeo)
            \<and> f \<notin> set (filter (\<lambda>f. \<exists>s. f_properties f ''amenity'' = Some (PStr s)
                                \<and> toLowerCase s = ''school'') amenGeo)"
    using other_kinds by (auto simp del: list.inject)
  from b am ag ta hm sm others show ?thesis by blast
qed

theorem amenity_densities_witness:
  "hospitals_per_km2 (result_metrics (projr (snd
      (analyzeBBox sample_env (JArray sample_bbox) default_options)))) = Fin (1 / 2)
   \<and> schools_per_km2 (result_metrics (projr (snd
      (analyzeBBox sample_env (JArray sample_bbox) default_options)))) = Fin 0"
proof -
  let ?res = "projr (snd (analyzeBBox sample_env (JArray sample_bbox) default_options))"
  have run: "analyzeBBox sample_env (JArray sample_bbox) default_options =
      ([(Q_ROADS sample_query, 1), (Q_BUILD sample_query, 1), (Q_AMEN sample_query, 1)], Inr ?res)"
    by (simp add: sample_run)
  from amenity_densities [OF run] obtain b amenOs amenGeo a where
    b: "JArray sample_bbox = JArray b" and
    am: "snd (overpass sample_env (Q_AMEN (Q_BASE sample_env b)) (overpassRetries default_options))
           = Inr amenOs" and
    ag: "osmToGeoJSON amenOs [''node''] = Inr amenGeo" and
    ta: "turf_area sample_env b = Inr a" and
    hm: "hospitals_per_km2 (result_metrics ?res) = toFixed 4 (pointDensityPerKm2
         (Some (filter (\<lambda>f. \<exists>s. f_properties f ''amenity'' = Some (PStr s)
                                \<and> toLowerCase s = ''hospital'') amenGeo))
         (jdiv a (Fin 1000000)))" and
    sm: "schools_per_km2 (result_metrics ?res) = toFixed 4 (pointDensityPerKm2
         (Some (filter (\<lambda>f. \<exists>s. f_properties f ''amenity'' = Some (PStr s)
                                \<and> toLowerCase s = ''school'') amenGeo))
         (jdiv a (Fin 1000000)))"
    by (elim exE conjE)
  from b have b': "b = sample_bbox" by simp
  from am have ao: "amenOs = Some sample_amenities"
    by (simp add: b' sample_Q_BASE default_options_def sample_overpass sample_answers)
  from ag have g: "amenGeo =
    [\<lparr>f_geometry = Some (Point (0, 0)),
      f_properties = make_props (node 5 [''amenity'' \<mapsto> ''Hospital''] 0 0)\<rparr>,
     \<lparr>f_geometry = Some (Point (1 / 1024, 0)),
      f_properties = make_props (node 6 [''amenity'' \<mapsto> ''clinic''] 0 (1 / 1024))\<rparr>,
     \<lparr>f_geometry = Some (Point (0, 1 / 1024)),
      f_properties = make_props (node 7 [''highway'' \<mapsto> ''bus_stop''] (1 / 1024) 0)\<rparr>]"
    by (simp add: ao sample_amenGeo)
  from ta have a: "a = Fin 2000000" by (simp add: sample_env_def)
  have "hospitals_per_km2 (result_metrics ?res) = Fin (1 / 2)"
    unfolding hm g a
    by (simp add: make_props_apply lower_Hospital lower_clinic pointDensityPerKm2_def
        sample_doubles)
  moreover have "schools_per_km2 (result_metrics ?res) = Fin 0"
    unfolding sm g a
    by (simp add: make_props_apply lower_Hospital lower_clinic pointDensityPerKm2_def
        sample_doubles)
  ultimately show ?thesis by (intro conjI)
qed

end
